theory Spec2Isabelle
  imports Complex_Main "HOL-Library.Multiset"
begin

section \<open>Common conventions\<close>

text \<open>
  The analytics services of the repository are Python/numpy code. Python ints are
  modelled as \<open>int\<close> or \<open>nat\<close>, label grids and rasters as lists of rows, and every
  exception the code can raise on the modelled paths as a value of \<open>py_error\<close>.
  Python floats are doubles; they are modelled as the real numbers they denote. Where
  the outcome of a comparison can depend on the rounding of an arithmetic operation, the
  operation is rounded to the nearest double (\<open>round_f64\<close>, below); elsewhere the
  arithmetic is exact.
\<close>

datatype py_error =
    ZeroDivisionError
  | ValueError
  | IndexError

section \<open>Doubles\<close>

text \<open>
  IEEE 754 binary64 as numpy and Python compute with it: the result of an arithmetic
  operation is the exact result rounded to the nearest double, ties to the even
  mantissa. \<open>bit_length\<close> is the number of binary digits of a natural number,
  \<open>binade x\<close> the exponent \<open>e\<close> with \<open>2^e \<le> x < 2^(e+1)\<close> of a positive \<open>x\<close>,
  and a double of that binade is a multiple of \<open>2^(e-52)\<close>; below \<open>2^(-1022)\<close> the
  spacing stays that of the smallest binade. Overflow is not modelled: all magnitudes
  here are far below \<open>2^1024\<close>.
\<close>

fun bit_length :: "nat \<Rightarrow> nat" where
  "bit_length n = (if n = 0 then 0 else Suc (bit_length (n div 2)))"

declare bit_length.simps [simp del]

definition binade :: "real \<Rightarrow> int" where
  "binade x =
     (if 1 \<le> x then int (bit_length (nat \<lfloor>x\<rfloor>)) - 1
      else - int (bit_length (nat (\<lceil>1 / x\<rceil> - 1))))"

definition pow2 :: "int \<Rightarrow> real" where
  "pow2 e = (if 0 \<le> e then 2 ^ nat e else 1 / 2 ^ nat (- e))"

definition round_half_even :: "real \<Rightarrow> int" where
  "round_half_even x =
     (let f = \<lfloor>x\<rfloor>; d = x - real_of_int f
      in if d < 1 / 2 then f
         else if 1 / 2 < d then f + 1
         else if even f then f else f + 1)"

definition round_f64 :: "real \<Rightarrow> real" where
  "round_f64 x =
     (if x = 0 then 0
      else
        let e = max (binade \<bar>x\<bar>) (- 1022);
            ulp = pow2 (e - 52)
        in sgn x * real_of_int (round_half_even (\<bar>x\<bar> / ulp)) * ulp)"

section \<open>CoordinateTransformer (geospatial\_processor.py)\<close>

record GeoBounds =
  north :: real
  south :: real
  east :: real
  west :: real

text \<open>
  \<open>_create_pixel_to_geo_transformer\<close>: the closure \<open>pixel_to_geo\<close> over
  \<open>height, width = image_shape\<close> and the bounds. The two divisions are Python
  divisions by an int, which raise \<open>ZeroDivisionError\<close> on zero; \<open>norm_x\<close> is
  computed first. The result is the pair (latitude, longitude), in this order. This is
  the closure in exact arithmetic; its evaluation on doubles follows further down.
\<close>

definition create_pixel_to_geo_transformer ::
  "int \<times> int \<Rightarrow> GeoBounds \<Rightarrow> real \<Rightarrow> real \<Rightarrow> py_error + (real \<times> real)" where
  "create_pixel_to_geo_transformer image_shape geo_bounds =
     (case image_shape of (height, width) \<Rightarrow>
        (\<lambda>pixel_x pixel_y.
           if width = 0 then Inl ZeroDivisionError
           else if height = 0 then Inl ZeroDivisionError
           else
             let norm_x = pixel_x / real_of_int width;
                 norm_y = 1 - (pixel_y / real_of_int height);
                 longitude = west geo_bounds + norm_x * (east geo_bounds - west geo_bounds);
                 latitude = south geo_bounds + norm_y * (north geo_bounds - south geo_bounds)
             in Inr (latitude, longitude)))"



section \<open>Arrays, slices and the OpenCV interface\<close>

text \<open>
  An RGB image is a list of rows of (red, green, blue) channel values (uint8, so naturals);
  a mask or raster is a list of rows of naturals. Points of contours and polygons are
  (x, y) pairs, x the column and y the row.
\<close>

type_synonym image = "(nat \<times> nat \<times> nat) list list"
type_synonym raster = "nat list list"
type_synonym points = "(int \<times> int) list"

text \<open>
  Python's \<open>a[start:stop]\<close> on a sequence of length \<open>n\<close>: a negative index counts
  from the end, and both ends are clipped to the sequence.
\<close>

definition py_slice_bounds :: "int \<Rightarrow> int \<Rightarrow> nat \<Rightarrow> nat \<times> nat" where
  "py_slice_bounds start stop n =
     (let clip = (\<lambda>k. if k < 0 then max (k + int n) 0 else min k (int n))
      in (nat (clip start), nat (clip stop)))"

definition in_slice :: "int \<Rightarrow> int \<Rightarrow> nat \<Rightarrow> nat \<Rightarrow> bool" where
  "in_slice start stop n i =
     (case py_slice_bounds start stop n of (lo, hi) \<Rightarrow> lo \<le> i \<and> i < hi)"

definition py_slice :: "int \<Rightarrow> int \<Rightarrow> 'a list \<Rightarrow> 'a list" where
  "py_slice start stop xs =
     (case py_slice_bounds start stop (length xs) of (lo, hi) \<Rightarrow> take (hi - lo) (drop lo xs))"

text \<open>\<open>a[y:y+h, x:x+w]\<close> on a two-dimensional array.\<close>

definition region :: "int \<times> int \<times> int \<times> int \<Rightarrow> 'a list list \<Rightarrow> 'a list list" where
  "region box a = (case box of (x, y, w, h) \<Rightarrow> map (py_slice x (x + w)) (py_slice y (y + h) a))"

text \<open>
  Writing into a raster: every cell (row \<open>i\<close>, column \<open>j\<close>) selected by \<open>sel\<close>
  gets \<open>f\<close> of its old value, every other cell keeps its value.
\<close>

definition update_where :: "(nat \<Rightarrow> nat \<Rightarrow> bool) \<Rightarrow> (nat \<Rightarrow> nat) \<Rightarrow> raster \<Rightarrow> raster" where
  "update_where sel f m =
     map (\<lambda>(i, row). map (\<lambda>(j, v). if sel i j then f v else v) (enumerate 0 row))
       (enumerate 0 m)"

text \<open>
  The OpenCV functions the analyzer calls are not part of the repository; they are taken
  as parameters. \<open>fillPoly pts x y\<close> tells whether \<open>cv2.fillPoly\<close> paints the pixel in
  column \<open>x\<close>, row \<open>y\<close> for the polygon \<open>pts\<close>; \<open>countStructures\<close> stands for
  \<open>_count_affected_structures\<close>, which consists of OpenCV calls only.
\<close>

record cv2 =
  findContours :: "raster \<Rightarrow> points list"
  contourArea :: "points \<Rightarrow> real"
  boundingRect :: "points \<Rightarrow> int \<times> int \<times> int \<times> int"
  fillPoly :: "points \<Rightarrow> nat \<Rightarrow> nat \<Rightarrow> bool"
  countStructures :: "image \<Rightarrow> raster \<Rightarrow> int"

text \<open>
  What \<open>cv2.fillPoly\<close> paints for an axis-aligned rectangle given by its corner
  points: the rectangle spanned by the corners, border included. It is used only to
  evaluate the rasters on concrete rectangular zones.
\<close>

definition rect_fill :: "points \<Rightarrow> nat \<Rightarrow> nat \<Rightarrow> bool" where
  "rect_fill pts x y =
     (list_ex (\<lambda>p. fst p \<le> int x) pts \<and> list_ex (\<lambda>p. int x \<le> fst p) pts \<and>
      list_ex (\<lambda>p. snd p \<le> int y) pts \<and> list_ex (\<lambda>p. int y \<le> snd p) pts)"

section \<open>Disaster analyzer (disaster\_analyzer.py)\<close>

datatype DamageZoneType =
    FLOODED
  | BURNED
  | COLLAPSED
  | DEBRIS
  | ERODED
  | DAMAGED_INFRASTRUCTURE
  | DISPLACED_VEGETATION

text \<open>
  The dataclass \<open>DamageZone\<close>. The fields \<open>severity\<close>, \<open>bbox\<close> and \<open>confidence\<close>
  carry the prefix \<open>zone_\<close> here, since \<open>ChangeDetection\<close> has fields of the same
  names. \<open>polygon_coords\<close> is \<open>Optional\<close>, \<open>None\<close> by default.
\<close>

record DamageZone =
  zone_type :: DamageZoneType
  zone_severity :: string
  zone_bbox :: "int \<times> int \<times> int \<times> int"
  area_sq_meters :: real
  zone_confidence :: real
  affected_structures :: int
  polygon_coords :: "points option"

subsection \<open>Flood zones\<close>

text \<open>\<open>detect_water\<close>: \<open>(blue > red + 20) & (blue > 100)\<close>, as 0/1.\<close>

definition detect_water :: "image \<Rightarrow> raster" where
  "detect_water img =
     map (map (\<lambda>(red, green, blue). if red + 20 < blue \<and> 100 < blue then 1 else 0)) img"

text \<open>
  \<open>_estimate_flood_severity\<close>: a score to which only the area contributes (the source
  leaves a place for a depth estimate), mapped to the tier names.
\<close>

definition estimate_flood_severity :: "real \<Rightarrow> raster \<Rightarrow> string" where
  "estimate_flood_severity area flood_region =
     (let score = (0::int);
          score = (if area > 10000 then score + 2
                   else if area > 1000 then score + 1
                   else score)
      in if score \<ge> 3 then ''catastrophic''
         else if score \<ge> 2 then ''severe''
         else if score \<ge> 1 then ''moderate''
         else ''minor'')"

text \<open>
  \<open>_detect_flood_zones\<close>, for an analyzer with the given \<open>pixel_to_meter_ratio\<close>.
  The two images show the same scene and have the same shape. A contour whose area is
  below 100 square meters is skipped.
\<close>

definition flood_zone_of_contour :: "cv2 \<Rightarrow> real \<Rightarrow> image \<Rightarrow> raster \<Rightarrow> points \<Rightarrow> DamageZone list" where
  "flood_zone_of_contour cv pixel_to_meter_ratio pre_img flood_mask contour =
     (let area_pixels = contourArea cv contour;
          area = area_pixels * pixel_to_meter_ratio
      in if area < 100 then []
         else
           let box = boundingRect cv contour;
               sev = estimate_flood_severity area (region box flood_mask);
               structures = countStructures cv (region box pre_img) (region box flood_mask)
           in [\<lparr>zone_type = FLOODED, zone_severity = sev, zone_bbox = box,
                area_sq_meters = area, zone_confidence = 0.8,
                affected_structures = structures, polygon_coords = Some contour\<rparr>])"

definition detect_flood_zones :: "cv2 \<Rightarrow> real \<Rightarrow> image \<Rightarrow> image \<Rightarrow> DamageZone list" where
  "detect_flood_zones cv pixel_to_meter_ratio pre_img post_img =
     (let pre_water = detect_water pre_img;
          post_water = detect_water post_img;
          flood_mask = map2 (map2 (\<lambda>post pre. if post > pre then 1 else (0::nat)))
                         post_water pre_water;
          contours = findContours cv flood_mask
      in concat (map (flood_zone_of_contour cv pixel_to_meter_ratio pre_img flood_mask) contours))"

subsection \<open>Priority rasters\<close>

text \<open>\<open>if zone.polygon_coords:\<close> holds for a list that is neither \<open>None\<close> nor empty.\<close>

definition has_polygon :: "DamageZone \<Rightarrow> bool" where
  "has_polygon zone = (case polygon_coords zone of None \<Rightarrow> False | Some pts \<Rightarrow> pts \<noteq> [])"

definition priority_value :: "DamageZone \<Rightarrow> nat" where
  "priority_value zone =
     (if zone_severity zone = ''catastrophic'' then 255
      else if zone_severity zone = ''severe'' then 200
      else if zone_severity zone = ''moderate'' then 150
      else 100)"

definition difficulty :: "DamageZone \<Rightarrow> nat" where
  "difficulty zone =
     (if zone_type zone \<in> {FLOODED, COLLAPSED} then 255
      else if zone_type zone = DEBRIS then 200
      else 150)"

text \<open>
  One iteration of the loop over the zones, shared by both rasters: with a polygon the
  zone is painted by \<open>cv2.fillPoly\<close> with the zone's value; without one, the slice
  \<open>[y:y+h, x:x+w]\<close> is replaced by its element-wise maximum with the value.
\<close>

definition fill_zone :: "cv2 \<Rightarrow> nat \<times> nat \<Rightarrow> (DamageZone \<Rightarrow> nat) \<Rightarrow> raster \<Rightarrow> DamageZone \<Rightarrow> raster" where
  "fill_zone cv shape val m zone =
     (case zone_bbox zone of (x, y, w, h) \<Rightarrow>
        if has_polygon zone
        then update_where (\<lambda>i j. fillPoly cv (the (polygon_coords zone)) j i) (\<lambda>_. val zone) m
        else update_where
               (\<lambda>i j. in_slice y (y + h) (fst shape) i \<and> in_slice x (x + w) (snd shape) j)
               (max (val zone)) m)"

definition generate_evacuation_priority_map :: "cv2 \<Rightarrow> DamageZone list \<Rightarrow> nat \<times> nat \<Rightarrow> raster" where
  "generate_evacuation_priority_map cv damage_zones shape =
     foldl (fill_zone cv shape priority_value)
       (replicate (fst shape) (replicate (snd shape) 0)) damage_zones"

definition generate_relief_access_map :: "cv2 \<Rightarrow> DamageZone list \<Rightarrow> nat \<times> nat \<Rightarrow> raster" where
  "generate_relief_access_map cv damage_zones shape =
     foldl (fill_zone cv shape difficulty)
       (replicate (fst shape) (replicate (snd shape) 100)) damage_zones"

subsection \<open>Spectral indices and ratios\<close>

text \<open>
  A numpy division. \<open>None\<close> stands for a zero divisor, where numpy does not produce a
  number (it yields \<open>inf\<close> or \<open>nan\<close> and a \<open>RuntimeWarning\<close>).
\<close>

definition np_divide :: "real \<Rightarrow> real \<Rightarrow> real option" where
  "np_divide a b = (if b = 0 then None else Some (a / b))"

definition epsilon :: real where
  "epsilon = 1 / 1000000"

text \<open>Per pixel: \<open>water_index\<close>, \<open>burn_ratio\<close> and \<open>post_red_ratio\<close>.\<close>

definition water_index :: "nat \<times> nat \<times> nat \<Rightarrow> real option" where
  "water_index px =
     (case px of (red, green, blue) \<Rightarrow>
        np_divide (real green - real red) (real green + real red + epsilon))"

definition burn_ratio :: "nat \<times> nat \<times> nat \<Rightarrow> real option" where
  "burn_ratio px =
     (case px of (red, green, blue) \<Rightarrow>
        np_divide (real red - real blue) (real red + real blue + epsilon))"

definition post_red_ratio :: "nat \<times> nat \<times> nat \<Rightarrow> real option" where
  "post_red_ratio px =
     (case px of (red, green, blue) \<Rightarrow>
        np_divide (real red) (real (red + green + blue) + epsilon))"

text \<open>\<open>np.mean(region[:, :, 1])\<close>: the mean of the green channel over all pixels.\<close>

definition mean_green :: "image \<Rightarrow> real" where
  "mean_green img =
     sum_list (map (\<lambda>(red, green, blue). real green) (concat img)) / real (length (concat img))"

text \<open>
  \<open>_estimate_burn_severity\<close>. The vegetation loss is divided by \<open>pre_green\<close> as it
  is. Where the quotient is not a number, it is \<open>nan\<close> or \<open>-inf\<close> (the numerator
  \<open>0 - post_green\<close> is never positive), every comparison is false and the result is
  \<open>minor\<close>.
\<close>

definition vegetation_loss :: "image \<Rightarrow> image \<Rightarrow> real option" where
  "vegetation_loss pre_region post_region =
     (let pre_green = mean_green pre_region;
          post_green = mean_green post_region
      in np_divide (pre_green - post_green) pre_green)"

definition estimate_burn_severity :: "image \<Rightarrow> image \<Rightarrow> string" where
  "estimate_burn_severity pre_region post_region =
     (case vegetation_loss pre_region post_region of
        None \<Rightarrow> ''minor''
      | Some loss \<Rightarrow>
          if loss > 0.8 then ''catastrophic''
          else if loss > 0.6 then ''severe''
          else if loss > 0.4 then ''moderate''
          else ''minor'')"

section \<open>Multi-class analyzer (multiclass\_analyzer.py)\<close>

datatype ChangeType =
    DEFORESTATION
  | REFORESTATION
  | URBANIZATION
  | URBAN_DECLINE
  | WATER_INCREASE
  | WATER_DECREASE
  | BARREN_TO_VEGETATION
  | VEGETATION_TO_BARREN
  | DISASTER_DAMAGE
  | RECOVERY
  | NO_CHANGE

record ChangeDetection =
  change_type :: ChangeType
  confidence :: real
  bbox :: "int \<times> int \<times> int \<times> int"
  area_hectares :: real
  severity :: string

definition LAND_COVER_CLASSES :: "nat \<rightharpoonup> string" where
  "LAND_COVER_CLASSES =
     map_of [(0, ''water''), (1, ''forest''), (2, ''urban''), (3, ''agriculture''),
             (4, ''barren''), (5, ''grassland''), (6, ''wetland''), (7, ''ice_snow'')]"

definition CHANGE_RULES :: "string \<times> string \<rightharpoonup> ChangeType" where
  "CHANGE_RULES =
     map_of [((''forest'', ''urban''), URBANIZATION),
             ((''forest'', ''barren''), DEFORESTATION),
             ((''forest'', ''agriculture''), DEFORESTATION),
             ((''urban'', ''barren''), DISASTER_DAMAGE),
             ((''urban'', ''water''), DISASTER_DAMAGE),
             ((''barren'', ''forest''), REFORESTATION),
             ((''barren'', ''urban''), URBANIZATION),
             ((''barren'', ''water''), WATER_INCREASE),
             ((''water'', ''barren''), WATER_DECREASE),
             ((''water'', ''urban''), URBANIZATION),
             ((''agriculture'', ''urban''), URBANIZATION),
             ((''agriculture'', ''barren''), VEGETATION_TO_BARREN),
             ((''barren'', ''agriculture''), BARREN_TO_VEGETATION),
             ((''grassland'', ''urban''), URBANIZATION),
             ((''grassland'', ''barren''), VEGETATION_TO_BARREN)]"

subsection \<open>numpy on two-dimensional arrays\<close>

text \<open>The shape (rows, columns) of an array given as a list of rows of equal length.\<close>

definition shape :: "'a list list \<Rightarrow> nat \<times> nat" where
  "shape a = (length a, if a = [] then 0 else length (hd a))"

text \<open>
  Broadcasting of one axis: equal extents are kept, an extent of 1 is stretched to
  the other one, anything else does not broadcast.
\<close>

definition broadcast_dim :: "nat \<Rightarrow> nat \<Rightarrow> nat option" where
  "broadcast_dim m n =
     (if m = n then Some m else if m = 1 then Some n else if n = 1 then Some m else None)"

definition stretch :: "nat \<Rightarrow> 'a list \<Rightarrow> 'a list" where
  "stretch n xs = (if length xs = n then xs else replicate n (hd xs))"

text \<open>
  Broadcasting as numpy documents it, to state what a comparison of two arrays returns:
  two extents are compatible when they are equal or one of them is 1; the result has
  the extent of the operand that is not stretched; and the cell \<open>i\<close> of the result
  reads an operand of extent 1 at index 0 and any other operand at index \<open>i\<close>. An
  array is rectangular when all its rows have the width its shape tells.
\<close>

definition broadcastable :: "nat \<Rightarrow> nat \<Rightarrow> bool" where
  "broadcastable m n = (m = n \<or> m = 1 \<or> n = 1)"

definition broadcast_extent :: "nat \<Rightarrow> nat \<Rightarrow> nat" where
  "broadcast_extent m n = (if m = 1 then n else m)"

definition broadcast_index :: "nat \<Rightarrow> nat \<Rightarrow> nat" where
  "broadcast_index n i = (if n = 1 then 0 else i)"

definition rectangular :: "'a list list \<Rightarrow> bool" where
  "rectangular a = list_all (\<lambda>row. length row = snd (shape a)) a"

text \<open>
  \<open>a[region_mask]\<close> with a boolean mask: the cells selected by the mask in row-major
  order; numpy raises \<open>IndexError\<close> when the mask has another shape than the array.
\<close>

definition select_mask :: "'a list list \<Rightarrow> bool list list \<Rightarrow> py_error + 'a list" where
  "select_mask a region_mask =
     (if shape a \<noteq> shape region_mask then Inl IndexError
      else Inr (map fst (filter snd (zip (concat a) (concat region_mask)))))"

text \<open>
  \<open>np.bincount(xs, minlength=n)\<close>: entry \<open>c\<close> counts the occurrences of \<open>c\<close>; the
  result has \<open>max xs + 1\<close> entries, at least \<open>n\<close>, and none for an empty \<open>xs\<close> with
  \<open>n = 0\<close>. \<open>argmax\<close> is the first position of the largest entry and raises
  \<open>ValueError\<close> on an empty array.
\<close>

definition bincount :: "nat list \<Rightarrow> nat \<Rightarrow> nat list" where
  "bincount xs minlength =
     map (count_list xs) [0 ..< max minlength (if xs = [] then 0 else Suc (Max (set xs)))]"

definition argmax :: "nat list \<Rightarrow> py_error + nat" where
  "argmax xs =
     (if xs = [] then Inl ValueError
      else Inr (length (takeWhile (\<lambda>v. v \<noteq> Max (set xs)) xs)))"

text \<open>
  \<open>np.mean\<close> of a one-dimensional array, in exact arithmetic: the rounding of
  numpy's pairwise summation is not modelled. For an empty array numpy yields \<open>nan\<close>;
  the loop over the regions takes the mean of a region only after the classification of
  the same region, which raises on an empty selection.
\<close>

definition np_mean :: "real list \<Rightarrow> real" where
  "np_mean xs = sum_list xs / real (length xs)"

subsection \<open>Change map\<close>

text \<open>
  \<open>_generate_change_map\<close>: \<open>(before != after).astype(np.uint8)\<close>. There is no
  check of the shapes; the comparison is numpy's, which broadcasts its operands and
  raises (\<open>ValueError\<close>: operands could not be broadcast together) only when that
  is impossible.
\<close>

definition generate_change_map :: "nat list list \<Rightarrow> nat list list \<Rightarrow> py_error + raster" where
  "generate_change_map before after =
     (case (broadcast_dim (fst (shape before)) (fst (shape after)),
            broadcast_dim (snd (shape before)) (snd (shape after))) of
        (Some h, Some w) \<Rightarrow>
          Inr (map2 (\<lambda>b a. map2 (\<lambda>p q. if p \<noteq> q then 1 else 0) (stretch w b) (stretch w a))
                 (stretch h before) (stretch h after))
      | _ \<Rightarrow> Inl ValueError)"

subsection \<open>Classification of a region\<close>

text \<open>
  \<open>_is_disaster_pattern\<close>, on doubles: the counts are divided by the length, the
  shares are subtracted, and the difference is compared with the double \<open>0.3\<close>. The
  two arrays are never empty where it is called (the \<open>argmax\<close> before it has raised
  otherwise).
\<close>

definition is_disaster_pattern :: "nat list \<Rightarrow> nat list \<Rightarrow> bool" where
  "is_disaster_pattern before_classes after_classes =
     (let before_counts = bincount before_classes 8;
          after_counts = bincount after_classes 8;
          before_pct = map (\<lambda>c. round_f64 (real c / real (length before_classes))) before_counts;
          after_pct = map (\<lambda>c. round_f64 (real c / real (length after_classes))) after_counts;
          barren_increase = round_f64 (after_pct ! 4 - before_pct ! 4);
          water_increase = round_f64 (after_pct ! 0 - before_pct ! 0)
      in barren_increase > round_f64 (3 / 10) \<or> water_increase > round_f64 (3 / 10))"

definition class_name :: "nat \<Rightarrow> string" where
  "class_name c = (case LAND_COVER_CLASSES c of Some name \<Rightarrow> name | None \<Rightarrow> ''unknown'')"

definition classify_region_change ::
  "nat list list \<Rightarrow> nat list list \<Rightarrow> bool list list \<Rightarrow> py_error + ChangeType" where
  "classify_region_change before_seg after_seg region_mask =
     (case select_mask before_seg region_mask of Inl e \<Rightarrow> Inl e | Inr before_classes \<Rightarrow>
      case select_mask after_seg region_mask of Inl e \<Rightarrow> Inl e | Inr after_classes \<Rightarrow>
      case argmax (bincount before_classes 0) of Inl e \<Rightarrow> Inl e | Inr before_dominant \<Rightarrow>
      case argmax (bincount after_classes 0) of Inl e \<Rightarrow> Inl e | Inr after_dominant \<Rightarrow>
        let transition = (class_name before_dominant, class_name after_dominant)
        in case CHANGE_RULES transition of
             Some change \<Rightarrow> Inr change
           | None \<Rightarrow>
               if is_disaster_pattern before_classes after_classes
               then Inr DISASTER_DAMAGE
               else Inr NO_CHANGE)"

text \<open>
  The specification's reading of the classifier, on the two label sub-grids of the
  region. A dominant class is a pixel mode. The transition table is stated by class
  ids: it is the rule table of the source composed with its table of class names
  (0 water, 1 forest, 2 urban, 3 agriculture, 4 barren, 5 grassland). The share of a
  class is its fraction of the pixels of the region; \<open>share_increase\<close> is the increase
  of a share in exact arithmetic, \<open>share_increase_f64\<close> the same on doubles.
\<close>

definition is_dominant :: "nat list \<Rightarrow> nat \<Rightarrow> bool" where
  "is_dominant xs c = (c \<in> set xs \<and> list_all (\<lambda>c'. count_list xs c' \<le> count_list xs c) xs)"

definition transition_rule :: "nat \<times> nat \<rightharpoonup> ChangeType" where
  "transition_rule =
     map_of [((1, 2), URBANIZATION),
             ((1, 4), DEFORESTATION),
             ((1, 3), DEFORESTATION),
             ((2, 4), DISASTER_DAMAGE),
             ((2, 0), DISASTER_DAMAGE),
             ((4, 1), REFORESTATION),
             ((4, 2), URBANIZATION),
             ((4, 0), WATER_INCREASE),
             ((0, 4), WATER_DECREASE),
             ((0, 2), URBANIZATION),
             ((3, 2), URBANIZATION),
             ((3, 4), VEGETATION_TO_BARREN),
             ((4, 3), BARREN_TO_VEGETATION),
             ((5, 2), URBANIZATION),
             ((5, 4), VEGETATION_TO_BARREN)]"

definition class_fraction :: "nat list \<Rightarrow> nat \<Rightarrow> real" where
  "class_fraction xs c = real (count_list xs c) / real (length xs)"

definition share_increase :: "nat list \<Rightarrow> nat list \<Rightarrow> nat \<Rightarrow> real" where
  "share_increase before_classes after_classes c =
     class_fraction after_classes c - class_fraction before_classes c"

definition share_increase_f64 :: "nat list \<Rightarrow> nat list \<Rightarrow> nat \<Rightarrow> real" where
  "share_increase_f64 before_classes after_classes c =
     round_f64 (round_f64 (class_fraction after_classes c)
                - round_f64 (class_fraction before_classes c))"

definition classify_spec :: "nat \<Rightarrow> nat \<Rightarrow> nat list \<Rightarrow> nat list \<Rightarrow> ChangeType" where
  "classify_spec before_dominant after_dominant before_classes after_classes =
     (case transition_rule (before_dominant, after_dominant) of
        Some change \<Rightarrow> change
      | None \<Rightarrow>
          if share_increase_f64 before_classes after_classes 4 > round_f64 (3 / 10)
             \<or> share_increase_f64 before_classes after_classes 0 > round_f64 (3 / 10)
          then DISASTER_DAMAGE
          else NO_CHANGE)"

subsection \<open>Confidence and severity\<close>

text \<open>
  \<open>_estimate_confidence\<close>, on doubles; \<open>0.95\<close> and \<open>0.3\<close> are the doubles that
  the literals denote.
\<close>

definition estimate_confidence ::
  "nat list list \<Rightarrow> nat list list \<Rightarrow> bool list list \<Rightarrow> py_error + real" where
  "estimate_confidence before_seg after_seg region_mask =
     (case select_mask before_seg region_mask of Inl e \<Rightarrow> Inl e | Inr before_region \<Rightarrow>
      case select_mask after_seg region_mask of Inl e \<Rightarrow> Inl e | Inr after_region \<Rightarrow>
      case argmax (bincount before_region 0) of Inl e \<Rightarrow> Inl e | Inr before_mode \<Rightarrow>
      case argmax (bincount after_region 0) of Inl e \<Rightarrow> Inl e | Inr after_mode \<Rightarrow>
        let before_consistency =
              round_f64 (real (count_list before_region before_mode)
                         / real (length before_region));
            after_consistency =
              round_f64 (real (count_list after_region after_mode)
                         / real (length after_region));
            conf = round_f64 (round_f64 (before_consistency + after_consistency) / 2)
        in Inr (min (round_f64 (95 / 100)) (max (round_f64 (3 / 10)) conf)))"

definition calculate_severity :: "ChangeType \<Rightarrow> real \<Rightarrow> real \<Rightarrow> string" where
  "calculate_severity change area conf =
     (let severity_score = (0::int);
          severity_score = (if area > 1000 then severity_score + 3
                            else if area > 100 then severity_score + 2
                            else if area > 10 then severity_score + 1
                            else severity_score);
          critical_changes = [DEFORESTATION, DISASTER_DAMAGE, WATER_DECREASE];
          high_changes = [URBANIZATION, VEGETATION_TO_BARREN];
          severity_score = (if change \<in> set critical_changes then severity_score + 2
                            else if change \<in> set high_changes then severity_score + 1
                            else severity_score);
          severity_score = (if conf > round_f64 (8 / 10) then severity_score + 1
                            else severity_score)
      in if severity_score \<ge> 5 then ''critical''
         else if severity_score \<ge> 3 then ''high''
         else if severity_score \<ge> 2 then ''medium''
         else ''low'')"

subsection \<open>Change regions\<close>

text \<open>
  One connected component as \<open>cv2.connectedComponentsWithStats\<close> reports it: the
  mask \<open>labels == label_id\<close> and the row of \<open>stats\<close> (left, top, width, height,
  area in pixels). The components of the labels 1, 2, ... are taken as given, in this
  order; the background label 0 is not among them.
\<close>

record component =
  region_mask :: "bool list list"
  cc_left :: int
  cc_top :: int
  cc_width :: int
  cc_height :: int
  cc_area :: int

definition get_bounding_box :: "component \<Rightarrow> int \<times> int \<times> int \<times> int" where
  "get_bounding_box stats = (cc_left stats, cc_top stats, cc_width stats, cc_height stats)"

text \<open>
  The confidence of a region: the mean of the supplied per-pixel scores over the region
  when scores are supplied, the estimate otherwise.
\<close>

definition region_confidence ::
  "nat list list \<Rightarrow> nat list list \<Rightarrow> real list list option \<Rightarrow> bool list list \<Rightarrow> py_error + real" where
  "region_confidence before_seg after_seg confidence_scores rm =
     (case confidence_scores of
        Some scores \<Rightarrow>
          (case select_mask scores rm of Inl e \<Rightarrow> Inl e | Inr vs \<Rightarrow> Inr (np_mean vs))
      | None \<Rightarrow> estimate_confidence before_seg after_seg rm)"

text \<open>
  The loop of \<open>_detect_change_regions\<close> over the components, for an analyzer with the
  given \<open>pixel_to_hectare_ratio\<close>. The area is a product of doubles, compared with
  the double \<open>0.1\<close>. An exception raised for one component ends the whole call.
\<close>

fun detect_regions ::
  "real \<Rightarrow> nat list list \<Rightarrow> nat list list \<Rightarrow> real list list option \<Rightarrow> component list
   \<Rightarrow> py_error + ChangeDetection list" where
  "detect_regions ratio before_seg after_seg confidence_scores [] = Inr []"
| "detect_regions ratio before_seg after_seg confidence_scores (c # cs) =
     (let area_pixels = cc_area c;
          area = round_f64 (real_of_int area_pixels * ratio)
      in if area < round_f64 (1 / 10)
         then detect_regions ratio before_seg after_seg confidence_scores cs
         else
           case classify_region_change before_seg after_seg (region_mask c) of
             Inl e \<Rightarrow> Inl e
           | Inr change \<Rightarrow>
           case region_confidence before_seg after_seg confidence_scores (region_mask c) of
             Inl e \<Rightarrow> Inl e
           | Inr conf \<Rightarrow>
           case detect_regions ratio before_seg after_seg confidence_scores cs of
             Inl e \<Rightarrow> Inl e
           | Inr detections \<Rightarrow>
               Inr (\<lparr>change_type = change, confidence = conf, bbox = get_bounding_box c,
                     area_hectares = area,
                     severity = calculate_severity change area conf\<rparr> # detections))"

definition detect_change_regions ::
  "(raster \<Rightarrow> component list) \<Rightarrow> real \<Rightarrow> nat list list \<Rightarrow> nat list list \<Rightarrow> raster
   \<Rightarrow> real list list option \<Rightarrow> py_error + ChangeDetection list" where
  "detect_change_regions connectedComponentsWithStats ratio before_seg after_seg change_map
     confidence_scores =
     detect_regions ratio before_seg after_seg confidence_scores
       (connectedComponentsWithStats change_map)"

text \<open>
  Three conditions used to state what the loop accepts: the supplied per-pixel scores,
  if any, all lie in [0, 1]; a component is large enough to be kept; and a component's
  mask fits the arrays and selects at least one pixel of each grid.
\<close>

definition scores_in_unit :: "real list list option \<Rightarrow> bool" where
  "scores_in_unit confidence_scores =
     (case confidence_scores of
        None \<Rightarrow> True
      | Some scores \<Rightarrow> list_all (list_all (\<lambda>v. 0 \<le> v \<and> v \<le> 1)) scores)"

definition large_enough :: "real \<Rightarrow> component \<Rightarrow> bool" where
  "large_enough ratio c = (\<not> round_f64 (real_of_int (cc_area c) * ratio) < round_f64 (1 / 10))"

definition region_ok ::
  "nat list list \<Rightarrow> nat list list \<Rightarrow> real list list option \<Rightarrow> component \<Rightarrow> bool" where
  "region_ok before_seg after_seg confidence_scores c =
     ((case confidence_scores of None \<Rightarrow> True | Some scores \<Rightarrow> shape scores = shape (region_mask c))
      \<and> (case select_mask before_seg (region_mask c) of Inl e \<Rightarrow> False | Inr bs \<Rightarrow> bs \<noteq> [])
      \<and> (case select_mask after_seg (region_mask c) of Inl e \<Rightarrow> False | Inr cs \<Rightarrow> cs \<noteq> []))"

section \<open>Spatial clusterer (geospatial\_processor.py)\<close>

text \<open>\<open>ChangeType.value\<close>, the string of an enumeration member.\<close>

fun change_type_value :: "ChangeType \<Rightarrow> string" where
  "change_type_value DEFORESTATION = ''deforestation''"
| "change_type_value REFORESTATION = ''reforestation''"
| "change_type_value URBANIZATION = ''urbanization''"
| "change_type_value URBAN_DECLINE = ''urban_decline''"
| "change_type_value WATER_INCREASE = ''water_increase''"
| "change_type_value WATER_DECREASE = ''water_decrease''"
| "change_type_value BARREN_TO_VEGETATION = ''barren_to_vegetation''"
| "change_type_value VEGETATION_TO_BARREN = ''vegetation_to_barren''"
| "change_type_value DISASTER_DAMAGE = ''disaster_damage''"
| "change_type_value RECOVERY = ''recovery''"
| "change_type_value NO_CHANGE = ''no_change''"

text \<open>
  One entry of the returned list, a dictionary with fixed keys. The keys \<open>type\<close>,
  \<open>detections\<close> and \<open>count\<close> are the fields \<open>group_type\<close>, \<open>group_detections\<close>
  and \<open>group_count\<close>.
\<close>

record ClusterGroup =
  group_type :: string
  group_detections :: "ChangeDetection list"
  group_count :: nat
  dominant_change_type :: string
  total_area_hectares :: real
  max_severity :: string
  avg_confidence :: real

text \<open>The center of a bounding box: \<open>[x + w / 2, y + h / 2]\<close>.\<close>

definition center :: "ChangeDetection \<Rightarrow> real \<times> real" where
  "center detection =
     (case bbox detection of (x, y, w, h) \<Rightarrow>
        (real_of_int x + real_of_int w / 2, real_of_int y + real_of_int h / 2))"

text \<open>
  The dictionary \<open>clusters\<close>, in insertion order, as a list of (label, members): a new
  label gets an empty list first, then the detection is appended to the list of its
  label.
\<close>

definition cluster_append :: "(int \<times> 'a list) list \<Rightarrow> int \<times> 'a \<Rightarrow> (int \<times> 'a list) list" where
  "cluster_append clusters item =
     (case item of (label, d) \<Rightarrow>
        let clusters = (if label \<in> set (map fst clusters) then clusters
                        else clusters @ [(label, [])])
        in map (\<lambda>(k, ds). if k = label then (k, ds @ [d]) else (k, ds)) clusters)"

definition group_by_label :: "int list \<Rightarrow> 'a list \<Rightarrow> (int \<times> 'a list) list" where
  "group_by_label labels ds = foldl cluster_append [] (zip labels ds)"

text \<open>
  Python's \<open>max(xs, key=key)\<close>: the first element with the largest key;
  \<open>ValueError\<close> on an empty sequence.
\<close>

fun max_from :: "('a \<Rightarrow> nat) \<Rightarrow> 'a \<Rightarrow> 'a list \<Rightarrow> 'a" where
  "max_from key best [] = best"
| "max_from key best (x # xs) = max_from key (if key best < key x then x else best) xs"

definition py_max :: "('a \<Rightarrow> nat) \<Rightarrow> 'a list \<Rightarrow> py_error + 'a" where
  "py_max key xs = (case xs of [] \<Rightarrow> Inl ValueError | x # rest \<Rightarrow> Inr (max_from key x rest))"

definition severity_order :: "string list" where
  "severity_order = [''low'', ''medium'', ''high'', ''critical'']"

text \<open>\<open>severity_order.index(x) if x in severity_order else 0\<close>.\<close>

definition severity_key :: "string \<Rightarrow> nat" where
  "severity_key x =
     (if x \<in> set severity_order then length (takeWhile (\<lambda>s. s \<noteq> x) severity_order) else 0)"

text \<open>
  The order of the specification on the four severity names:
  low < medium < high < critical.
\<close>

definition severity_lt :: "string \<Rightarrow> string \<Rightarrow> bool" where
  "severity_lt a b =
     ((a, b) \<in> set [(''low'', ''medium''), (''low'', ''high''), (''low'', ''critical''),
                     (''medium'', ''high''), (''medium'', ''critical''),
                     (''high'', ''critical'')])"

text \<open>The group of a single detection that DBSCAN has labelled as noise.\<close>

definition individual :: "ChangeDetection \<Rightarrow> ClusterGroup" where
  "individual detection =
     \<lparr>group_type = ''individual'', group_detections = [detection], group_count = 1,
      dominant_change_type = change_type_value (change_type detection),
      total_area_hectares = area_hectares detection,
      max_severity = severity detection,
      avg_confidence = confidence detection\<rparr>"

text \<open>
  The summary of one cluster. \<open>set_iter\<close> is the order in which Python iterates over
  \<open>set(change_types)\<close>, which the language leaves open; it is a parameter.
\<close>

definition cluster_summary ::
  "(string list \<Rightarrow> string list) \<Rightarrow> ChangeDetection list \<Rightarrow> py_error + ClusterGroup" where
  "cluster_summary set_iter dets =
     (let change_types = map (\<lambda>d. change_type_value (change_type d)) dets
      in case py_max (count_list change_types) (set_iter change_types) of
           Inl e \<Rightarrow> Inl e
         | Inr dominant_type \<Rightarrow>
      let severities = map severity dets
      in case py_max severity_key severities of
           Inl e \<Rightarrow> Inl e
         | Inr max_sev \<Rightarrow>
      let total_area = sum_list (map area_hectares dets)
      in if length dets = 0 then Inl ZeroDivisionError
         else
           let avg = sum_list (map confidence dets) / real (length dets)
           in Inr \<lparr>group_type = ''cluster'', group_detections = dets,
                   group_count = length dets,
                   dominant_change_type = dominant_type,
                   total_area_hectares = total_area,
                   max_severity = max_sev,
                   avg_confidence = avg\<rparr>)"

text \<open>The loop over \<open>clusters.items()\<close>.\<close>

fun cluster_summaries ::
  "(string list \<Rightarrow> string list) \<Rightarrow> (int \<times> ChangeDetection list) list
   \<Rightarrow> py_error + ClusterGroup list" where
  "cluster_summaries set_iter [] = Inr []"
| "cluster_summaries set_iter ((cluster_id, dets) # rest) =
     (if cluster_id = -1
      then (case cluster_summaries set_iter rest of
              Inl e \<Rightarrow> Inl e
            | Inr groups \<Rightarrow> Inr (map individual dets @ groups))
      else (case cluster_summary set_iter dets of
              Inl e \<Rightarrow> Inl e
            | Inr g \<Rightarrow>
                (case cluster_summaries set_iter rest of
                   Inl e \<Rightarrow> Inl e
                 | Inr groups \<Rightarrow> Inr (g # groups))))"

text \<open>
  \<open>cluster_nearby_changes\<close>. \<open>dbscan eps min_samples points\<close> stands for
  \<open>DBSCAN(eps=eps, min_samples=min_samples).fit(points).labels_\<close> of scikit-learn,
  which is not part of the repository; it may raise.
\<close>

definition cluster_nearby_changes ::
  "(real \<Rightarrow> nat \<Rightarrow> (real \<times> real) list \<Rightarrow> py_error + int list) \<Rightarrow> (string list \<Rightarrow> string list)
   \<Rightarrow> ChangeDetection list \<Rightarrow> real \<Rightarrow> py_error + ClusterGroup list" where
  "cluster_nearby_changes dbscan set_iter change_detections max_distance_meters =
     (if change_detections = [] then Inr []
      else
        let points = map center change_detections;
            max_distance_pixels = max_distance_meters / 10
        in case dbscan max_distance_pixels 1 points of
             Inl e \<Rightarrow> Inl e
           | Inr labels \<Rightarrow> cluster_summaries set_iter (group_by_label labels change_detections))"

text \<open>
  What the clusterer relies on. Of DBSCAN, as scikit-learn documents it: for a positive
  \<open>eps\<close> it returns one label per point, and a core point, one with at least
  \<open>min_samples\<close> points (itself included) within distance \<open>eps\<close>, is never labelled
  noise, that is, its label is not negative. Of the iteration over a set: it visits
  exactly the elements of the list the set was made of.
\<close>

definition euclidean :: "real \<times> real \<Rightarrow> real \<times> real \<Rightarrow> real" where
  "euclidean p q = sqrt ((fst p - fst q)\<^sup>2 + (snd p - snd q)\<^sup>2)"

definition core_point :: "real \<Rightarrow> nat \<Rightarrow> (real \<times> real) list \<Rightarrow> real \<times> real \<Rightarrow> bool" where
  "core_point eps min_samples pts p =
     (min_samples \<le> length (filter (\<lambda>q. euclidean p q \<le> eps) pts))"

definition dbscan_labels ::
  "real \<Rightarrow> nat \<Rightarrow> (real \<times> real) list \<Rightarrow> py_error + int list \<Rightarrow> bool" where
  "dbscan_labels eps min_samples pts result =
     (case result of
        Inl e \<Rightarrow> False
      | Inr labels \<Rightarrow>
          length labels = length pts
          \<and> list_all (\<lambda>(p, l). core_point eps min_samples pts p \<longrightarrow> 0 \<le> l) (zip pts labels))"

definition iterates_set :: "(string list \<Rightarrow> string list) \<Rightarrow> bool" where
  "iterates_set set_iter = (\<forall>xs. set (set_iter xs) = set xs)"

text \<open>
  The invariant of the grouping loop: the labels of the dictionary are pairwise
  different and are those seen so far, no list of members is empty, and the members of
  all lists together are the detections seen so far.
\<close>

definition grouped :: "(int \<times> 'a list) list \<Rightarrow> (int \<times> 'a) list \<Rightarrow> bool" where
  "grouped cl items =
     (distinct (map fst cl) \<and> set (map fst cl) = set (map fst items)
      \<and> list_all (\<lambda>(k, ds). ds \<noteq> []) cl
      \<and> mset (concat (map snd cl)) = mset (map snd items))"

section \<open>Concrete inputs\<close>

text \<open>
  OpenCV's answers on a flood mask that is a filled block of 201 x 201 pixels: one
  contour, through the four corner pixels, of area 200 * 200.
\<close>

definition block_cv :: cv2 where
  "block_cv = \<lparr>findContours = (\<lambda>m. [[(0, 0), (0, 200), (200, 200), (200, 0)]]),
              contourArea = (\<lambda>pts. 40000),
              boundingRect = (\<lambda>pts. (0, 0, 201, 201)),
              fillPoly = rect_fill,
              countStructures = (\<lambda>img m. 0)\<rparr>"

text \<open>An OpenCV that fills rectangles; the rasters use nothing else of it.\<close>

definition rect_cv :: cv2 where
  "rect_cv = \<lparr>findContours = (\<lambda>m. []),
              contourArea = (\<lambda>pts. 0),
              boundingRect = (\<lambda>pts. (0, 0, 0, 0)),
              fillPoly = rect_fill,
              countStructures = (\<lambda>img m. 0)\<rparr>"

text \<open>A zone whose polygon is the 3 x 3 square in the top-left corner of the raster.\<close>

definition square_zone :: "DamageZoneType \<Rightarrow> string \<Rightarrow> DamageZone" where
  "square_zone t s = \<lparr>zone_type = t, zone_severity = s, zone_bbox = (0, 0, 3, 3),
     area_sq_meters = 400, zone_confidence = 0.8, affected_structures = 0,
     polygon_coords = Some [(0, 0), (0, 2), (2, 2), (2, 0)]\<rparr>"

text \<open>
  The components of the change map \<open>[[1, 1, 0, 0], [1, 1, 0, 1]]\<close>: a block of four
  pixels and a single pixel.
\<close>

definition two_components :: "raster \<Rightarrow> component list" where
  "two_components m =
     [\<lparr>region_mask = [[True, True, False, False], [True, True, False, False]],
       cc_left = 0, cc_top = 0, cc_width = 2, cc_height = 2, cc_area = 4\<rparr>,
      \<lparr>region_mask = [[False, False, False, False], [False, False, False, True]],
       cc_left = 3, cc_top = 1, cc_width = 1, cc_height = 1, cc_area = 1\<rparr>]"

text \<open>
  Three detections whose centers lie within 100 pixels of each other, and the labels
  DBSCAN gives them: one cluster, label 0.
\<close>

definition three_detections :: "ChangeDetection list" where
  "three_detections =
     [\<lparr>change_type = URBANIZATION, confidence = 0.9, bbox = (0, 0, 10, 10),
       area_hectares = 2, severity = ''medium''\<rparr>,
      \<lparr>change_type = DEFORESTATION, confidence = 0.7, bbox = (20, 0, 10, 10),
       area_hectares = 3, severity = ''high''\<rparr>,
      \<lparr>change_type = URBANIZATION, confidence = 0.8, bbox = (0, 20, 10, 10),
       area_hectares = 1, severity = ''low''\<rparr>]"

definition one_cluster :: "real \<Rightarrow> nat \<Rightarrow> (real \<times> real) list \<Rightarrow> py_error + int list" where
  "one_cluster eps min_samples pts = Inr (map (\<lambda>p. 0) pts)"

section \<open>Properties of the rounding to doubles\<close>

lemmas f64_eval = round_f64_def binade_def bit_length.simps pow2_def round_half_even_def Let_def

text \<open>
  The binade is the right one, and rounding moves a number by at most half the spacing of
  the doubles around it; for magnitudes below 2 that is at most \<open>2^(-53)\<close>.
\<close>

lemma bit_length_bounds:
  "0 < n \<Longrightarrow> 2 ^ (bit_length n - 1) \<le> n \<and> n < 2 ^ bit_length n"
proof (induction n rule: bit_length.induct)
  case (1 n)
  show ?case
  proof (cases "n div 2 = 0")
    case True
    with "1.prems" have "n = 1" by (simp add: div_eq_0_iff) 
    then show ?thesis by (simp add: bit_length.simps)
  next
    case False
    then have pos: "0 < n div 2" by simp
    from "1.prems" have n0: "n \<noteq> 0" by simp
    from "1.IH" [OF n0 pos]
    have lo: "2 ^ (bit_length (n div 2) - 1) \<le> n div 2"
      and hi: "n div 2 < 2 ^ bit_length (n div 2)" by simp_all
    have bl: "bit_length n = Suc (bit_length (n div 2))"
      using n0 by (subst bit_length.simps) simp
    from hi pos have k: "0 < bit_length (n div 2)"
      by (cases "bit_length (n div 2)") simp_all
    then have p: "(2::nat) ^ bit_length (n div 2) = 2 * 2 ^ (bit_length (n div 2) - 1)"
      by (cases "bit_length (n div 2)") simp_all
    have "2 ^ bit_length (n div 2) \<le> 2 * (n div 2)" using lo p by simp
    also have "\<dots> \<le> n" by simp
    finally have a: "2 ^ (bit_length n - 1) \<le> n" by (simp add: bl)
    have "n < 2 * (n div 2) + 2" by presburger
    also have "\<dots> \<le> 2 * 2 ^ bit_length (n div 2)" using hi by simp
    finally have b: "n < 2 ^ bit_length n" by (simp add: bl)
    from a b show ?thesis ..
  qed
qed

lemma binade_bounds:
  assumes "0 < x"
  shows "pow2 (binade x) \<le> x \<and> x < pow2 (binade x + 1)"
proof (cases "1 \<le> x")
  case True
  let ?n = "nat \<lfloor>x\<rfloor>"
  let ?k = "bit_length ?n"
  from True have n: "0 < ?n" by simp
  from bit_length_bounds [OF n] have lo: "2 ^ (?k - 1) \<le> ?n" and hi: "?n < 2 ^ ?k" by simp_all
  from hi n have k: "0 < ?k" by (cases ?k) simp_all
  have e: "binade x = int ?k - 1" using True by (simp add: binade_def)
  have fl: "real ?n \<le> x" using True by simp
  have "(2::real) ^ (?k - 1) \<le> real ?n"
    using lo by (metis of_nat_le_iff of_nat_numeral of_nat_power)
  with fl have a: "2 ^ (?k - 1) \<le> x" by linarith
  have "x < real_of_int \<lfloor>x\<rfloor> + 1" by linarith
  also have "\<dots> = real ?n + 1" using True by simp
  also have "\<dots> = real (Suc ?n)" by simp
  also have "\<dots> \<le> real (2 ^ ?k)" using hi by (simp only: of_nat_le_iff Suc_le_eq)
  also have "\<dots> = 2 ^ ?k" by simp
  finally have b: "x < 2 ^ ?k" .
  have p1: "pow2 (binade x) = 2 ^ (?k - 1)"
    using k by (simp add: e pow2_def nat_diff_distrib')
  have p2: "pow2 (binade x + 1) = 2 ^ ?k"
    by (simp add: e pow2_def)
  from a b show ?thesis by (simp only: p1 p2)
next
  case False
  with assms have x1: "x < 1" by simp
  let ?y = "1 / x"
  let ?m = "nat (\<lceil>?y\<rceil> - 1)"
  let ?k = "bit_length ?m"
  from assms x1 have y1: "1 < ?y" by simp
  then have c2: "2 \<le> \<lceil>?y\<rceil>" by linarith
  then have m: "0 < ?m" by simp
  from bit_length_bounds [OF m] have lo: "2 ^ (?k - 1) \<le> ?m" and hi: "?m < 2 ^ ?k" by simp_all
  from hi m have k: "0 < ?k" by (cases ?k) simp_all
  have e: "binade x = - int ?k" using False by (simp add: binade_def)
  have "0 \<le> \<lceil>?y\<rceil> - 1" using c2 by linarith
  then have "real ?m = real_of_int (\<lceil>?y\<rceil> - 1)" by (rule of_nat_nat)
  then have mr: "real ?m = real_of_int \<lceil>?y\<rceil> - 1" by (simp only: of_int_diff of_int_1)
  have "real (Suc ?m) \<le> real (2 ^ ?k)" using hi by (simp only: of_nat_le_iff Suc_le_eq)
  moreover have "real (2 ^ ?k) = 2 ^ ?k" by simp
  moreover have "real (Suc ?m) = real ?m + 1" by simp
  ultimately have "real_of_int \<lceil>?y\<rceil> \<le> 2 ^ ?k" using mr by linarith
  moreover have "?y \<le> real_of_int \<lceil>?y\<rceil>" by linarith
  ultimately have yk: "?y \<le> 2 ^ ?k" by linarith
  have "(2::real) ^ (?k - 1) \<le> real ?m"
    using lo by (metis of_nat_le_iff of_nat_numeral of_nat_power)
  then have "2 ^ (?k - 1) \<le> real_of_int \<lceil>?y\<rceil> - 1" using mr by linarith
  moreover have "real_of_int \<lceil>?y\<rceil> - 1 < ?y" by linarith
  ultimately have ky: "2 ^ (?k - 1) < ?y" by linarith
  have a: "1 / 2 ^ ?k \<le> x"
  proof -
    from yk assms have "1 \<le> 2 ^ ?k * x" by (simp add: field_simps)
    then show ?thesis by (simp add: field_simps)
  qed
  have b: "x < 1 / 2 ^ (?k - 1)"
  proof -
    from ky assms have "2 ^ (?k - 1) * x < 1" by (simp add: field_simps)
    then show ?thesis by (simp add: field_simps)
  qed
  have p1: "pow2 (binade x) = 1 / 2 ^ ?k"
    using k by (simp add: e pow2_def)
  have p2: "pow2 (binade x + 1) = 1 / 2 ^ (?k - 1)"
  proof (cases "?k = 1")
    case True
    then show ?thesis by (simp add: e pow2_def)
  next
    case False
    with k have "1 < ?k" by simp
    then have "nat (int ?k - 1) = ?k - 1" "\<not> 0 \<le> - int ?k + 1" by simp_all
    then show ?thesis by (simp add: e pow2_def)
  qed
  from a b show ?thesis by (simp only: p1 p2)
qed

lemma round_half_even_error: "\<bar>real_of_int (round_half_even x) - x\<bar> \<le> 1 / 2"
proof -
  have "real_of_int \<lfloor>x\<rfloor> \<le> x" "x < real_of_int \<lfloor>x\<rfloor> + 1" by linarith+
  then show ?thesis
    by (auto simp: round_half_even_def Let_def abs_le_iff)
qed

lemma pow2_pos: "0 < pow2 e"
  by (simp add: pow2_def)

lemma round_f64_error:
  "\<bar>round_f64 x - x\<bar> \<le> pow2 (max (binade \<bar>x\<bar>) (- 1022) - 52) / 2"
proof (cases "x = 0")
  case True
  then show ?thesis using pow2_pos [of "max (binade \<bar>x\<bar>) (- 1022) - 52"]
    by (simp add: round_f64_def)
next
  case False
  let ?u = "pow2 (max (binade \<bar>x\<bar>) (- 1022) - 52)"
  let ?n = "round_half_even (\<bar>x\<bar> / ?u)"
  have u: "0 < ?u" by (rule pow2_pos)
  have r: "round_f64 x = sgn x * real_of_int ?n * ?u"
    using False by (simp add: round_f64_def Let_def)
  have "\<bar>round_f64 x - x\<bar> = \<bar>sgn x * (real_of_int ?n * ?u - \<bar>x\<bar>)\<bar>"
    unfolding r by (simp add: algebra_simps flip: abs_sgn mult.assoc) (metis mult.commute sgn_mult_abs)
  also have "\<dots> = \<bar>real_of_int ?n * ?u - \<bar>x\<bar>\<bar>"
    using False by (simp add: abs_mult abs_sgn_eq)
  also have "\<dots> = \<bar>real_of_int ?n - \<bar>x\<bar> / ?u\<bar> * ?u"
  proof -
    have "real_of_int ?n * ?u - \<bar>x\<bar> = (real_of_int ?n - \<bar>x\<bar> / ?u) * ?u"
      using u by (simp add: field_simps)
    then show ?thesis using u by (simp add: abs_mult)
  qed
  also have "\<dots> \<le> (1 / 2) * ?u"
    using round_half_even_error [of "\<bar>x\<bar> / ?u"] u by (intro mult_right_mono) simp_all
  finally show ?thesis by simp
qed

lemma pow2_powr: "pow2 e = 2 powr real_of_int e"
proof (cases "0 \<le> e")
  case True
  then have eq: "real_of_int e = real (nat e)" by simp
  have "pow2 e = 2 ^ nat e" using True by (simp add: pow2_def)
  also have "\<dots> = 2 powr real (nat e)" by (simp add: powr_realpow)
  finally show ?thesis by (simp only: eq)
next
  case False
  then have eq: "real_of_int e = - real (nat (- e))" by simp
  have "pow2 e = 1 / 2 ^ nat (- e)" using False by (simp add: pow2_def)
  also have "\<dots> = 1 / 2 powr real (nat (- e))" by (simp add: powr_realpow)
  also have "\<dots> = 2 powr (- real (nat (- e)))" by (simp add: powr_minus_divide)
  finally show ?thesis by (simp only: eq)
qed

lemma pow2_mono: "e \<le> e' \<Longrightarrow> pow2 e \<le> pow2 e'"
  by (simp add: pow2_powr)

lemma binade_small:
  assumes "0 < x" and "x < 2"
  shows "binade x \<le> 0"
proof (rule ccontr)
  assume "\<not> binade x \<le> 0"
  then have "1 \<le> binade x" by simp
  then have "pow2 1 \<le> pow2 (binade x)" by (rule pow2_mono)
  moreover have "pow2 1 = 2" by (simp add: pow2_def)
  moreover from binade_bounds [OF assms(1)] have "pow2 (binade x) \<le> x" by simp
  ultimately show False using assms(2) by simp
qed

lemma round_f64_error_small:
  assumes "\<bar>x\<bar> < 2"
  shows "\<bar>round_f64 x - x\<bar> \<le> 1 / 2 ^ 53"
proof (cases "x = 0")
  case True
  then show ?thesis by (simp add: round_f64_def)
next
  case False
  then have "0 < \<bar>x\<bar>" by simp
  from binade_small [OF this assms] have "max (binade \<bar>x\<bar>) (- 1022) - 52 \<le> - 52" by simp
  then have "pow2 (max (binade \<bar>x\<bar>) (- 1022) - 52) \<le> pow2 (- 52)" by (rule pow2_mono)
  moreover have "pow2 (- 52) = 1 / 2 ^ 52" by (simp add: pow2_def)
  ultimately have "pow2 (max (binade \<bar>x\<bar>) (- 1022) - 52) / 2 \<le> 1 / 2 ^ 53" by simp
  with round_f64_error [of x] show ?thesis by linarith
qed

text \<open>The doubles that the literals 0.3, 0.1, 0.95 and 0.8 denote.\<close>

lemma f64_three_tenths: "round_f64 (3 / 10) = 5404319552844595 / 2 ^ 54"
  by (simp add: f64_eval)

lemma f64_constants:
  "round_f64 (1 / 10) = 3602879701896397 / 2 ^ 55"
  "round_f64 (95 / 100) = 4278419646001971 / 2 ^ 52"
  "round_f64 (8 / 10) = 3602879701896397 / 2 ^ 52"
  by (simp_all add: f64_eval)

section \<open>Properties of the coordinate transformer\<close>


text \<open>
  Claim C5. For every image shape (H, W) with H > 0 and W > 0, every bounding box and
  every pixel (x, y), the transformer returns (without raising) the latitude
  \<open>south + (1 - y/H) * (north - south)\<close> and the longitude
  \<open>west + (x/W) * (east - west)\<close>; and pixel (0, 0) of a 100 x 100 image with bounds
  north = 40, south = 39, east = -73, west = -74 maps to latitude 40 and longitude -74,
  the north-west corner.
\<close>

theorem pixel_to_geo_formula:
  "(0 < H \<and> 0 < W \<longrightarrow>
     create_pixel_to_geo_transformer (H, W) b x y =
       Inr (south b + (1 - y / real_of_int H) * (north b - south b),
            west b + (x / real_of_int W) * (east b - west b)))
   \<and> create_pixel_to_geo_transformer (100, 100)
        \<lparr>north = 40, south = 39, east = -73, west = -74\<rparr> 0 0 = Inr (40, -74)"
  by (simp add: create_pixel_to_geo_transformer_def Let_def)

theorem pixel_to_geo_formula_witness:
  "(0::int) < 480 \<and> (0::int) < 640 \<and>
   create_pixel_to_geo_transformer (480, 640)
     \<lparr>north = 40, south = 39, east = -73, west = -74\<rparr> 160 120 = Inr (39.75, -73.75)"
  using pixel_to_geo_formula [of 480 640 "\<lparr>north = 40, south = 39, east = -73, west = -74\<rparr>" 160 120]
  by simp




section \<open>Properties of the disaster analyzer\<close>

subsection \<open>Flood severity\<close>

lemma estimate_flood_severity_tiers:
  "estimate_flood_severity a r =
     (if a > 10000 then ''severe'' else if a > 1000 then ''moderate'' else ''minor'')"
  by (simp add: estimate_flood_severity_def Let_def)

lemma flood_zone_of_contour_cases:
  "z \<in> set (flood_zone_of_contour cv ratio pre fm c) \<Longrightarrow>
     area_sq_meters z = contourArea cv c * ratio \<and> 100 \<le> area_sq_meters z \<and>
     zone_type z = FLOODED \<and>
     zone_severity z = estimate_flood_severity (area_sq_meters z) (region (boundingRect cv c) fm)"
  by (auto simp: flood_zone_of_contour_def Let_def split: if_splits)

text \<open>
  Claim C1, as stated, fails: a flood zone of 40000 square meters (the contour of a
  filled block, \<open>pixel_to_meter_ratio = 1\<close>) gets the severity \<open>severe\<close>, not
  \<open>catastrophic\<close>.
\<close>

theorem flood_severity_counterexample:
  "map (\<lambda>z. (area_sq_meters z, zone_severity z))
     (detect_flood_zones block_cv 1
        (replicate 201 (replicate 201 (90, 120, 60)))
        (replicate 201 (replicate 201 (40, 80, 160))))
   = [(40000, ''severe'')]"
  by (simp add: detect_flood_zones_def flood_zone_of_contour_def block_cv_def Let_def
      estimate_flood_severity_def)

text \<open>
  Claim C1, amended. For every flood damage zone produced by \<open>_detect_flood_zones\<close>
  the severity follows the area tiers one step lower than stated: an area above 10000
  square meters yields \<open>severe\<close>, above 1000 \<open>moderate\<close>, and \<open>minor\<close> otherwise;
  \<open>catastrophic\<close> is never produced. In particular a flooded zone of 40000 square
  meters has severity \<open>severe\<close>.
\<close>

theorem flood_zone_severity_tiers:
  "(\<forall>z \<in> set (detect_flood_zones cv ratio pre_img post_img).
      zone_severity z =
        (if area_sq_meters z > 10000 then ''severe''
         else if area_sq_meters z > 1000 then ''moderate''
         else ''minor'')
      \<and> zone_severity z \<noteq> ''catastrophic'')
   \<and> estimate_flood_severity 40000 flood_region = ''severe''"
proof -
  have "zone_severity z =
        (if area_sq_meters z > 10000 then ''severe''
         else if area_sq_meters z > 1000 then ''moderate''
         else ''minor'')"
    if "z \<in> set (detect_flood_zones cv ratio pre_img post_img)" for z
  proof -
    from that obtain c fm where "z \<in> set (flood_zone_of_contour cv ratio pre_img fm c)"
      by (auto simp: detect_flood_zones_def Let_def)
    from flood_zone_of_contour_cases [OF this] show ?thesis
      by (simp add: estimate_flood_severity_tiers)
  qed
  then show ?thesis
    by (auto simp: estimate_flood_severity_tiers)
qed

theorem flood_zone_severity_tiers_witness:
  "\<exists>z. z \<in> set (detect_flood_zones block_cv 1
                   (replicate 201 (replicate 201 (90, 120, 60)))
                   (replicate 201 (replicate 201 (40, 80, 160))))
       \<and> area_sq_meters z = 40000 \<and> zone_severity z = ''severe''"
proof -
  let ?pre = "replicate 201 (replicate 201 (90::nat, 120::nat, 60::nat))"
  let ?post = "replicate 201 (replicate 201 (40::nat, 80::nat, 160::nat))"
  let ?zones = "detect_flood_zones block_cv 1 ?pre ?post"
  have areas: "map area_sq_meters ?zones = [40000]"
    by (simp add: detect_flood_zones_def flood_zone_of_contour_def block_cv_def Let_def)
  then obtain z where z: "z \<in> set ?zones" by (cases ?zones) auto
  then have "area_sq_meters z \<in> set (map area_sq_meters ?zones)" by force
  then have a: "area_sq_meters z = 40000" by (simp only: areas) simp
  from flood_zone_severity_tiers [of block_cv 1 ?pre ?post] z a
  have "zone_severity z = ''severe''" by auto
  with z a show ?thesis by blast
qed

subsection \<open>Priority rasters\<close>

lemma update_where_nth:
  "i < length m \<Longrightarrow> j < length (m ! i) \<Longrightarrow>
   update_where sel f m ! i ! j = (if sel i j then f (m ! i ! j) else m ! i ! j)"
  by (simp add: update_where_def nth_enumerate_eq)

text \<open>The branch for a zone without polygon never lowers a cell.\<close>

lemma fill_zone_bbox_max:
  "\<not> has_polygon zone \<Longrightarrow> i < length m \<Longrightarrow> j < length (m ! i) \<Longrightarrow>
   m ! i ! j \<le> fill_zone cv shp val m zone ! i ! j"
  by (cases "zone_bbox zone") (simp add: fill_zone_def update_where_nth)

text \<open>The branch for a zone with a polygon writes the zone's value, whatever was there.\<close>

lemma fill_zone_polygon_overwrites:
  "has_polygon zone \<Longrightarrow> i < length m \<Longrightarrow> j < length (m ! i) \<Longrightarrow>
   fillPoly cv (the (polygon_coords zone)) j i \<Longrightarrow>
   fill_zone cv shp val m zone ! i ! j = val zone"
  by (cases "zone_bbox zone") (simp add: fill_zone_def update_where_nth)

text \<open>
  Claim C3 does not hold of the code for zones filled from their polygon. On a 3 x 3
  raster a catastrophic flooded zone fills its square with 255 in both rasters; a minor
  burned zone with the same polygon, written later, lowers the evacuation priority to
  100 and the access difficulty to 150.
\<close>

theorem polygon_fill_overwrites_downward:
  "generate_evacuation_priority_map rect_cv [square_zone FLOODED ''catastrophic''] (3, 3)
     = [[255, 255, 255], [255, 255, 255], [255, 255, 255]]
   \<and> generate_evacuation_priority_map rect_cv
       [square_zone FLOODED ''catastrophic'', square_zone BURNED ''minor''] (3, 3)
     = [[100, 100, 100], [100, 100, 100], [100, 100, 100]]
   \<and> generate_relief_access_map rect_cv [square_zone FLOODED ''catastrophic''] (3, 3)
     = [[255, 255, 255], [255, 255, 255], [255, 255, 255]]
   \<and> generate_relief_access_map rect_cv
       [square_zone FLOODED ''catastrophic'', square_zone BURNED ''minor''] (3, 3)
     = [[150, 150, 150], [150, 150, 150], [150, 150, 150]]"
  by (simp add: generate_evacuation_priority_map_def generate_relief_access_map_def
      fill_zone_def has_polygon_def square_zone_def rect_cv_def update_where_def
      priority_value_def difficulty_def rect_fill_def eval_nat_numeral enumerate_eq_zip)

subsection \<open>Guarded and unguarded divisions\<close>

lemma np_divide_guarded: "0 \<le> d \<Longrightarrow> np_divide a (d + epsilon) \<noteq> None"
  by (simp add: np_divide_def epsilon_def add_nonneg_eq_0_iff)

text \<open>The water index, the burn ratio and the red ratio are numbers for every pixel.\<close>

lemma guarded_ratios_defined:
  "water_index px \<noteq> None \<and> burn_ratio px \<noteq> None \<and> post_red_ratio px \<noteq> None"
  by (cases px) (simp add: water_index_def burn_ratio_def post_red_ratio_def np_divide_guarded)

text \<open>
  Claim C9 does not hold of the code for the vegetation-loss fraction: its divisor is
  the mean green value of the region before the fire, without an epsilon. On a region
  without any green (here 2 x 2 pixels that darken and stay red, as the burn mask
  selects them) the divisor is 0, the quotient is not a number, and the severity falls
  to \<open>minor\<close>.
\<close>

theorem vegetation_loss_unguarded:
  "mean_green [[(200, 0, 40), (200, 0, 40)], [(200, 0, 40), (200, 0, 40)]] = 0
   \<and> vegetation_loss [[(200, 0, 40), (200, 0, 40)], [(200, 0, 40), (200, 0, 40)]]
                      [[(60, 0, 20), (60, 0, 20)], [(60, 0, 20), (60, 0, 20)]] = None
   \<and> estimate_burn_severity [[(200, 0, 40), (200, 0, 40)], [(200, 0, 40), (200, 0, 40)]]
                      [[(60, 0, 20), (60, 0, 20)], [(60, 0, 20), (60, 0, 20)]] = ''minor''"
  by (simp add: mean_green_def vegetation_loss_def estimate_burn_severity_def np_divide_def)

section \<open>Properties of the multi-class analyzer\<close>

subsection \<open>Change map\<close>

lemma broadcast_dim_Some:
  "(broadcast_dim m n = Some h) = (broadcastable m n \<and> h = broadcast_extent m n)"
  by (auto simp: broadcast_dim_def broadcastable_def broadcast_extent_def)

lemma broadcast_dim_None: "(broadcast_dim m n = None) = (m \<noteq> n \<and> m \<noteq> 1 \<and> n \<noteq> 1)"
  by (simp add: broadcast_dim_def)

lemma broadcastable_extent:
  "broadcastable m n \<Longrightarrow>
     (m = broadcast_extent m n \<or> m = 1) \<and> (n = broadcast_extent m n \<or> n = 1)"
  by (auto simp: broadcastable_def broadcast_extent_def)

lemma stretch_nth:
  assumes "length xs = h \<or> length xs = 1"
  shows "length (stretch h xs) = h
         \<and> (\<forall>i < h. stretch h xs ! i = xs ! broadcast_index (length xs) i
                    \<and> broadcast_index (length xs) i < length xs)"
proof (cases "length xs = h")
  case True
  then show ?thesis by (auto simp: stretch_def broadcast_index_def)
next
  case False
  with assms have one: "length xs = 1" by simp
  then have "xs \<noteq> []" by auto
  then have "hd xs = xs ! 0" by (rule hd_conv_nth)
  with False one show ?thesis by (simp add: stretch_def broadcast_index_def)
qed

lemma rectangular_row:
  "rectangular a \<Longrightarrow> i < length a \<Longrightarrow> length (a ! i) = snd (shape a)"
  by (simp add: rectangular_def list_all_length)

lemma generate_change_map_fails_iff:
  "(generate_change_map before after = Inl ValueError) =
   (broadcast_dim (fst (shape before)) (fst (shape after)) = None
    \<or> broadcast_dim (snd (shape before)) (snd (shape after)) = None)"
  by (auto simp: generate_change_map_def split: option.splits)

lemma generate_change_map_cells:
  assumes rb: "rectangular before" and ra: "rectangular after"
    and bh: "broadcastable (fst (shape before)) (fst (shape after))"
    and bw: "broadcastable (snd (shape before)) (snd (shape after))"
  shows "\<exists>m. generate_change_map before after = Inr m
     \<and> length m = broadcast_extent (fst (shape before)) (fst (shape after))
     \<and> (\<forall>i < broadcast_extent (fst (shape before)) (fst (shape after)).
          length (m ! i) = broadcast_extent (snd (shape before)) (snd (shape after))
          \<and> (\<forall>j < broadcast_extent (snd (shape before)) (snd (shape after)).
                m ! i ! j =
                  (if before ! broadcast_index (fst (shape before)) i
                             ! broadcast_index (snd (shape before)) j
                      \<noteq> after ! broadcast_index (fst (shape after)) i
                               ! broadcast_index (snd (shape after)) j
                   then 1 else 0)))"
proof -
  let ?hb = "fst (shape before)" and ?ha = "fst (shape after)"
  let ?wb = "snd (shape before)" and ?wa = "snd (shape after)"
  let ?h = "broadcast_extent ?hb ?ha" and ?w = "broadcast_extent ?wb ?wa"
  let ?g = "\<lambda>p q. if p \<noteq> q then 1 else (0::nat)"
  let ?f = "\<lambda>b a. map2 ?g (stretch ?w b) (stretch ?w a)"
  let ?m = "map2 ?f (stretch ?h before) (stretch ?h after)"
  have lb: "length before = ?hb" and la: "length after = ?ha" by (simp_all add: shape_def)
  from bh bw have run: "generate_change_map before after = Inr ?m"
    by (simp add: generate_change_map_def broadcast_dim_Some [THEN iffD2])
  from broadcastable_extent [OF bh] lb la
  have sb: "length before = ?h \<or> length before = 1"
    and sa: "length after = ?h \<or> length after = 1" by auto
  note SB = stretch_nth [OF sb] and SA = stretch_nth [OF sa]
  from SB SA have len: "length ?m = ?h" by simp
  have cell: "length (?m ! i) = ?w
          \<and> (\<forall>j < ?w. ?m ! i ! j =
                  (if before ! broadcast_index ?hb i ! broadcast_index ?wb j
                      \<noteq> after ! broadcast_index ?ha i ! broadcast_index ?wa j
                   then 1 else 0))" if i: "i < ?h" for i
  proof -
    let ?rb = "before ! broadcast_index ?hb i" and ?ra = "after ! broadcast_index ?ha i"
    from SB i lb have rowb: "stretch ?h before ! i = ?rb"
      and inb: "broadcast_index ?hb i < length before" by auto
    from SA i la have rowa: "stretch ?h after ! i = ?ra"
      and ina: "broadcast_index ?ha i < length after" by auto
    from rectangular_row [OF rb inb] have wrb: "length ?rb = ?wb" .
    from rectangular_row [OF ra ina] have wra: "length ?ra = ?wa" .
    from broadcastable_extent [OF bw] wrb wra
    have cb: "length ?rb = ?w \<or> length ?rb = 1" and ca: "length ?ra = ?w \<or> length ?ra = 1"
      by auto
    note CB = stretch_nth [OF cb] and CA = stretch_nth [OF ca]
    from SB SA i have mi: "?m ! i = map2 ?g (stretch ?w ?rb) (stretch ?w ?ra)"
      by (simp add: rowb rowa)
    from CB CA have l: "length (?m ! i) = ?w" unfolding mi by simp
    have "?m ! i ! j = ?g (?rb ! broadcast_index ?wb j) (?ra ! broadcast_index ?wa j)"
      if "j < ?w" for j
      using CB CA that unfolding mi by (simp add: wrb wra)
    with l show ?thesis by simp
  qed
  from run len cell show ?thesis by blast
qed

text \<open>
  Claim C2, as stated, fails: a grid of one row and a grid of two rows of the same width
  have different dimensions, and the change map is built without any error, the single
  row being compared with both rows.
\<close>

theorem change_map_broadcast_counterexample:
  "shape [[1, 2, 3 :: nat]] \<noteq> shape [[1, 2, 3], [4, 5, 6 :: nat]]
   \<and> generate_change_map [[1, 2, 3]] [[1, 2, 3], [4, 5, 6]] = Inr [[0, 0, 0], [1, 1, 1]]"
  by (simp add: generate_change_map_def shape_def broadcast_dim_def stretch_def)

text \<open>
  Claim C2, amended. The change-map construction fails (with numpy's broadcasting
  error, there is no shape check of its own) exactly when along some axis the extents of
  the two grids differ and neither of them is 1. In every other case it returns a map
  without error: the map has along each axis the extent of the grid that is not
  stretched, and each of its cells is 1 or 0 as the two cells it compares differ or
  not, where a grid of extent 1 along an axis is read at index 0 of that axis (it is
  repeated) and any other grid at the index of the cell. So no grid is padded or
  cropped; but grids whose dimensions differ only along axes on which one of them has
  extent 1 are compared silently.
\<close>

theorem change_map_shape_mismatch:
  "((generate_change_map before after = Inl ValueError) =
     ((fst (shape before) \<noteq> fst (shape after)
        \<and> fst (shape before) \<noteq> 1 \<and> fst (shape after) \<noteq> 1)
      \<or> (snd (shape before) \<noteq> snd (shape after)
        \<and> snd (shape before) \<noteq> 1 \<and> snd (shape after) \<noteq> 1)))
   \<and> (rectangular before \<and> rectangular after
        \<and> broadcastable (fst (shape before)) (fst (shape after))
        \<and> broadcastable (snd (shape before)) (snd (shape after)) \<longrightarrow>
      (\<exists>m. generate_change_map before after = Inr m
         \<and> length m = broadcast_extent (fst (shape before)) (fst (shape after))
         \<and> (\<forall>i < broadcast_extent (fst (shape before)) (fst (shape after)).
              length (m ! i) = broadcast_extent (snd (shape before)) (snd (shape after))
              \<and> (\<forall>j < broadcast_extent (snd (shape before)) (snd (shape after)).
                    m ! i ! j =
                      (if before ! broadcast_index (fst (shape before)) i
                                 ! broadcast_index (snd (shape before)) j
                          \<noteq> after ! broadcast_index (fst (shape after)) i
                                   ! broadcast_index (snd (shape after)) j
                       then 1 else 0)))))"
  using generate_change_map_cells [of before after]
  by (simp only: generate_change_map_fails_iff broadcast_dim_None) blast

theorem change_map_shape_mismatch_witness:
  "rectangular [[1, 2, 3 :: nat]] \<and> rectangular [[1, 2, 3], [4, 5, 6 :: nat]]
   \<and> broadcastable (fst (shape [[1, 2, 3 :: nat]])) (fst (shape [[1, 2, 3], [4, 5, 6 :: nat]]))
   \<and> broadcastable (snd (shape [[1, 2, 3 :: nat]])) (snd (shape [[1, 2, 3], [4, 5, 6 :: nat]]))
   \<and> (\<exists>m. generate_change_map [[1, 2, 3]] [[1, 2, 3], [4, 5, 6]] = Inr m \<and> length m = 2)
   \<and> generate_change_map [[1, 2, 3]] [[1, 2], [4, 5]] = Inl ValueError"
proof -
  have r: "rectangular [[1, 2, 3 :: nat]]" "rectangular [[1, 2, 3], [4, 5, 6 :: nat]]"
    by (simp_all add: rectangular_def shape_def)
  have b: "broadcastable (fst (shape [[1, 2, 3 :: nat]])) (fst (shape [[1, 2, 3], [4, 5, 6 :: nat]]))"
    "broadcastable (snd (shape [[1, 2, 3 :: nat]])) (snd (shape [[1, 2, 3], [4, 5, 6 :: nat]]))"
    by (simp_all add: broadcastable_def shape_def)
  have e: "broadcast_extent (fst (shape [[1, 2, 3 :: nat]])) (fst (shape [[1, 2, 3], [4, 5, 6 :: nat]])) = 2"
    by (simp add: broadcast_extent_def shape_def)
  from change_map_shape_mismatch [of "[[1, 2, 3]]" "[[1, 2, 3], [4, 5, 6]]"] r b
  have "\<exists>m. generate_change_map [[1, 2, 3]] [[1, 2, 3], [4, 5, 6]] = Inr m
             \<and> length m = broadcast_extent (fst (shape [[1, 2, 3 :: nat]]))
                                            (fst (shape [[1, 2, 3], [4, 5, 6 :: nat]]))"
    by blast
  then have ok: "\<exists>m. generate_change_map [[1, 2, 3]] [[1, 2, 3], [4, 5, 6]] = Inr m \<and> length m = 2"
    by (simp only: e)
  have "generate_change_map [[1, 2, 3]] [[1, 2], [4, 5]] = Inl ValueError"
    using change_map_shape_mismatch [of "[[1, 2, 3]]" "[[1, 2], [4, 5]]"]
    by (simp add: shape_def)
  with r b ok show ?thesis by blast
qed

subsection \<open>Classification of a region\<close>

lemma length_bincount:
  "length (bincount xs n) = max n (if xs = [] then 0 else Suc (Max (set xs)))"
  by (simp add: bincount_def)

lemma nth_bincount:
  "c < length (bincount xs n) \<Longrightarrow> bincount xs n ! c = count_list xs c"
  by (simp add: bincount_def)

lemma bincount_covers: "c \<in> set xs \<Longrightarrow> c < length (bincount xs n)"
proof -
  assume c: "c \<in> set xs"
  then have len: "length (bincount xs n) = max n (Suc (Max (set xs)))"
    by (auto simp: length_bincount)
  from c have "c \<le> Max (set xs)" by simp
  then have "c < Suc (Max (set xs))" by (rule le_imp_less_Suc)
  also have "\<dots> \<le> max n (Suc (Max (set xs)))" by (rule max.cobounded2)
  finally show ?thesis by (simp only: len)
qed

lemma argmax_first_max:
  assumes "ys \<noteq> []"
  shows "\<exists>k. argmax ys = Inr k \<and> k < length ys \<and> ys ! k = Max (set ys)"
proof -
  let ?P = "\<lambda>v. v \<noteq> Max (set ys)"
  let ?k = "length (takeWhile ?P ys)"
  from assms have "Max (set ys) \<in> set ys" by simp
  then have "\<exists>v \<in> set ys. \<not> ?P v" by blast
  then have "takeWhile ?P ys \<noteq> ys"
    by (simp only: takeWhile_eq_all_conv) blast
  moreover have "takeWhile ?P ys = take ?k ys" by (rule takeWhile_eq_take)
  ultimately have "?k \<noteq> length ys" by (metis take_all order_refl)
  with length_takeWhile_le [of ?P ys] have lt: "?k < length ys" by simp
  then have "\<not> ?P (ys ! ?k)" by (rule nth_length_takeWhile)
  with lt assms show ?thesis by (simp add: argmax_def)
qed

text \<open>The first largest bin of a non-empty list of classes is a mode of the list.\<close>

lemma argmax_bincount_dominant:
  assumes "xs \<noteq> []"
  shows "\<exists>k. argmax (bincount xs 0) = Inr k \<and> is_dominant xs k"
proof -
  let ?ys = "bincount xs 0"
  from assms have ne: "?ys \<noteq> []"
    by (simp add: bincount_def)
  from argmax_first_max [OF ne] obtain k
    where k: "argmax ?ys = Inr k" "k < length ?ys" "?ys ! k = Max (set ?ys)" by blast
  have top: "count_list xs c \<le> count_list xs k" if "c \<in> set xs" for c
  proof -
    from that have c: "c < length ?ys" by (rule bincount_covers)
    then have "?ys ! c \<in> set ?ys" by simp
    then have "?ys ! c \<le> Max (set ?ys)" by simp
    with c k show ?thesis by (simp add: nth_bincount)
  qed
  from assms obtain x where x: "x \<in> set xs" by (cases xs) auto
  then have "count_list xs x \<noteq> 0" by (simp add: count_list_0_iff)
  with top [OF x] have "count_list xs k \<noteq> 0" by simp
  then have "k \<in> set xs" by (simp add: count_list_0_iff)
  with top k(1) show ?thesis
    by (auto simp: is_dominant_def list_all_iff)
qed

text \<open>The fallback compares the increase of the shares of barren land and of water.\<close>

lemma is_disaster_pattern_shares:
  "is_disaster_pattern bs cs =
     (share_increase_f64 bs cs 4 > round_f64 (3 / 10)
      \<or> share_increase_f64 bs cs 0 > round_f64 (3 / 10))"
proof -
  have "4 < length (bincount bs 8)" "0 < length (bincount bs 8)"
       "4 < length (bincount cs 8)" "0 < length (bincount cs 8)"
    by (simp_all add: length_bincount)
  then show ?thesis
    by (simp add: is_disaster_pattern_def Let_def share_increase_f64_def class_fraction_def
        nth_bincount)
qed

text \<open>The rule table under the class names is the transition table by class ids.\<close>

lemma class_name_values:
  "class_name 0 = ''water''" "class_name 1 = ''forest''" "class_name (Suc 0) = ''forest''"
  "class_name 2 = ''urban''"
  "class_name 3 = ''agriculture''" "class_name 4 = ''barren''" "class_name 5 = ''grassland''"
  "class_name 6 = ''wetland''" "class_name 7 = ''ice_snow''"
  "8 \<le> c \<Longrightarrow> class_name c = ''unknown''"
  by (simp_all add: class_name_def LAND_COVER_CLASSES_def)

lemma class_id_cases:
  "c = 0 \<or> c = 1 \<or> c = 2 \<or> c = 3 \<or> c = 4 \<or> c = 5 \<or> c = 6 \<or> c = 7 \<or> 8 \<le> (c::nat)"
  by arith

lemma change_rules_by_id: "CHANGE_RULES (class_name b, class_name a) = transition_rule (b, a)"
  using class_id_cases [of b] class_id_cases [of a]
  by (elim disjE) (simp_all add: class_name_values CHANGE_RULES_def transition_rule_def)

text \<open>
  On doubles the increase of a share differs from the exact one by at most
  \<open>3 * 2^(-53)\<close>, so the test of the fallback agrees with the exact test unless the
  exact increase is within \<open>2^(-51)\<close> of 0.3.
\<close>

lemma class_fraction_unit: "0 \<le> class_fraction xs c \<and> class_fraction xs c \<le> 1"
proof -
  have "real (count_list xs c) \<le> real (length xs)"
    using count_le_length [of xs c] by (simp only: of_nat_le_iff)
  then show ?thesis
    by (simp add: class_fraction_def divide_le_eq_1)
qed

lemma share_increase_f64_close:
  "\<bar>share_increase_f64 bs cs c - share_increase bs cs c\<bar> \<le> 3 / 2 ^ 53"
proof -
  let ?a = "class_fraction cs c" and ?b = "class_fraction bs c"
  let ?x = "round_f64 ?a - round_f64 ?b"
  from class_fraction_unit [of cs c] class_fraction_unit [of bs c]
  have a: "0 \<le> ?a" "?a \<le> 1" and b: "0 \<le> ?b" "?b \<le> 1" by simp_all
  from a have "\<bar>?a\<bar> < 2" by simp
  from round_f64_error_small [OF this] have ea: "\<bar>round_f64 ?a - ?a\<bar> \<le> 1 / 2 ^ 53" .
  from b have "\<bar>?b\<bar> < 2" by simp
  from round_f64_error_small [OF this] have eb: "\<bar>round_f64 ?b - ?b\<bar> \<le> 1 / 2 ^ 53" .
  have small: "(1::real) / 2 ^ 53 \<le> 1 / 4" by simp
  from a b ea eb small have "\<bar>?x\<bar> < 2" by (simp only: abs_le_iff abs_less_iff) linarith
  from round_f64_error_small [OF this] have ex: "\<bar>round_f64 ?x - ?x\<bar> \<le> 1 / 2 ^ 53" .
  have "share_increase_f64 bs cs c - share_increase bs cs c
        = (round_f64 ?x - ?x) + (round_f64 ?a - ?a) - (round_f64 ?b - ?b)"
    by (simp add: share_increase_f64_def share_increase_def)
  with ea eb ex show ?thesis by (simp only: abs_le_iff) linarith
qed

lemma classify_spec_tolerance:
  assumes "transition_rule (bd, ad) = None"
  shows "((share_increase bs cs 4 > 3 / 10 + 1 / 2 ^ 51
            \<or> share_increase bs cs 0 > 3 / 10 + 1 / 2 ^ 51)
           \<longrightarrow> classify_spec bd ad bs cs = DISASTER_DAMAGE)
       \<and> ((share_increase bs cs 4 < 3 / 10 - 1 / 2 ^ 51
            \<and> share_increase bs cs 0 < 3 / 10 - 1 / 2 ^ 51)
           \<longrightarrow> classify_spec bd ad bs cs = NO_CHANGE)"
proof -
  have up: "share_increase_f64 bs cs c > round_f64 (3 / 10)"
    if "share_increase bs cs c > 3 / 10 + 1 / 2 ^ 51" for c
    using that share_increase_f64_close [of bs cs c]
    by (simp only: f64_three_tenths abs_le_iff) (simp add: field_simps)
  have down: "\<not> share_increase_f64 bs cs c > round_f64 (3 / 10)"
    if "share_increase bs cs c < 3 / 10 - 1 / 2 ^ 51" for c
    using that share_increase_f64_close [of bs cs c]
    by (simp only: f64_three_tenths abs_le_iff) (simp add: field_simps)
  from assms up down show ?thesis
    by (auto simp: classify_spec_def)
qed

lemma classify_region_change_on_sub_grids:
  assumes "select_mask before_seg rm = Inr bs" and "select_mask after_seg rm = Inr cs"
    and "argmax (bincount bs 0) = Inr bd" and "argmax (bincount cs 0) = Inr ad"
  shows "classify_region_change before_seg after_seg rm = Inr (classify_spec bd ad bs cs)"
  using assms
  by (simp add: classify_region_change_def classify_spec_def is_disaster_pattern_shares
      change_rules_by_id split: option.splits)

text \<open>
  Four runs of the classifier: a table entry, the fallback with and without a
  disaster pattern, and an empty mask.
\<close>

lemma classify_examples:
  "classify_region_change [[1, 1], [1, 2]] [[2, 2], [2, 2]]
      [[True, True], [True, False]] = Inr URBANIZATION"
  "classify_region_change [[3, 3, 3], [5, 5, 1]] [[3, 3, 3], [4, 4, 1]]
      [[True, True, True], [True, True, False]] = Inr DISASTER_DAMAGE"
  "classify_region_change [[3, 3, 3], [5, 5, 1]] [[3, 3, 3], [5, 4, 1]]
      [[True, True, True], [True, True, False]] = Inr NO_CHANGE"
  "classify_region_change [[1, 1], [1, 2]] [[2, 2], [2, 2]]
      [[False, False], [False, False]] = Inl ValueError"
  by (simp_all add: classify_region_change_def select_mask_def shape_def argmax_def bincount_def
      class_name_def LAND_COVER_CLASSES_def CHANGE_RULES_def is_disaster_pattern_def
      upt_rec f64_eval)

text \<open>
  Claim C4, as stated, fails at the threshold: in a region of ten pixels whose dominant
  classes (agriculture before and after) have no table entry, barren land grows from one
  pixel to four, an increase of exactly 0.3 and so not of more than 0.3, and water does
  not grow; the code returns \<open>DISASTER_DAMAGE\<close>, because on doubles
  \<open>0.4 - 0.1\<close> is greater than \<open>0.3\<close>.
\<close>

theorem classify_boundary_counterexample:
  "classify_region_change [[3, 3, 3, 3, 3], [3, 3, 3, 3, 4]] [[3, 3, 3, 3, 3], [3, 4, 4, 4, 4]]
      [[True, True, True, True, True], [True, True, True, True, True]] = Inr DISASTER_DAMAGE
   \<and> select_mask [[3, 3, 3, 3, 3], [3, 3, 3, 3, 4]]
        [[True, True, True, True, True], [True, True, True, True, True]]
       = Inr [3, 3, 3, 3, 3, 3, 3, 3, 3, 4 :: nat]
   \<and> select_mask [[3, 3, 3, 3, 3], [3, 4, 4, 4, 4]]
        [[True, True, True, True, True], [True, True, True, True, True]]
       = Inr [3, 3, 3, 3, 3, 3, 4, 4, 4, 4 :: nat]
   \<and> is_dominant [3, 3, 3, 3, 3, 3, 3, 3, 3, 4] 3
   \<and> is_dominant [3, 3, 3, 3, 3, 3, 4, 4, 4, 4] 3
   \<and> CHANGE_RULES (class_name 3, class_name 3) = None
   \<and> share_increase [3, 3, 3, 3, 3, 3, 3, 3, 3, 4] [3, 3, 3, 3, 3, 3, 4, 4, 4, 4] 4 = 3 / 10
   \<and> share_increase [3, 3, 3, 3, 3, 3, 3, 3, 3, 4] [3, 3, 3, 3, 3, 3, 4, 4, 4, 4] 0 = 0"
  by (simp add: classify_region_change_def select_mask_def shape_def argmax_def bincount_def
      class_name_def LAND_COVER_CLASSES_def CHANGE_RULES_def is_disaster_pattern_def
      upt_rec f64_eval is_dominant_def share_increase_def class_fraction_def)

text \<open>
  Claim C4, amended. For a region mask that selects the non-empty label sub-grids \<open>bs\<close>
  (before) and \<open>cs\<close> (after), \<open>_classify_region_change\<close> returns, without raising,
  for a dominant class (pixel mode) of each sub-grid: the entry of the transition table
  for the pair of dominant classes when there is one; and otherwise
  \<open>DISASTER_DAMAGE\<close> exactly when the increase of the share of barren land or of
  water over the whole region, computed on doubles, is greater than the double 0.3, and
  \<open>NO_CHANGE\<close> if not. That test holds whenever the exact increase of one of the two
  shares is above \<open>0.3 + 2^(-51)\<close> and fails whenever both are below
  \<open>0.3 - 2^(-51)\<close>. The result is a function of the two sub-grids and the table
  alone: any other call that selects the same two sub-grids returns the same.
\<close>

theorem classify_region_change_spec:
  assumes "select_mask before_seg rm = Inr bs" and "select_mask after_seg rm = Inr cs"
    and "bs \<noteq> []" and "cs \<noteq> []"
  shows "(\<exists>before_dominant after_dominant.
           is_dominant bs before_dominant \<and> is_dominant cs after_dominant
           \<and> classify_region_change before_seg after_seg rm =
               Inr (classify_spec before_dominant after_dominant bs cs))
       \<and> (\<forall>before_seg' after_seg' rm'.
             select_mask before_seg' rm' = Inr bs \<and> select_mask after_seg' rm' = Inr cs \<longrightarrow>
             classify_region_change before_seg' after_seg' rm' =
               classify_region_change before_seg after_seg rm)
       \<and> (\<forall>bd ad. transition_rule (bd, ad) = None \<longrightarrow>
             ((share_increase bs cs 4 > 3 / 10 + 1 / 2 ^ 51
                \<or> share_increase bs cs 0 > 3 / 10 + 1 / 2 ^ 51)
               \<longrightarrow> classify_spec bd ad bs cs = DISASTER_DAMAGE)
           \<and> ((share_increase bs cs 4 < 3 / 10 - 1 / 2 ^ 51
                \<and> share_increase bs cs 0 < 3 / 10 - 1 / 2 ^ 51)
               \<longrightarrow> classify_spec bd ad bs cs = NO_CHANGE))"
proof -
  from argmax_bincount_dominant [OF assms(3)] obtain bd
    where bd: "argmax (bincount bs 0) = Inr bd" "is_dominant bs bd" by blast
  from argmax_bincount_dominant [OF assms(4)] obtain ad
    where ad: "argmax (bincount cs 0) = Inr ad" "is_dominant cs ad" by blast
  have run: "classify_region_change before_seg after_seg rm = Inr (classify_spec bd ad bs cs)"
    using assms(1,2) bd(1) ad(1) by (rule classify_region_change_on_sub_grids)
  have pure: "classify_region_change before_seg' after_seg' rm' =
               classify_region_change before_seg after_seg rm"
    if "select_mask before_seg' rm' = Inr bs \<and> select_mask after_seg' rm' = Inr cs"
    for before_seg' after_seg' rm'
  proof -
    from that have "classify_region_change before_seg' after_seg' rm' =
                    Inr (classify_spec bd ad bs cs)"
      using bd(1) ad(1) by (intro classify_region_change_on_sub_grids) simp_all
    with run show ?thesis by simp
  qed
  from run bd(2) ad(2) have first: "\<exists>before_dominant after_dominant.
           is_dominant bs before_dominant \<and> is_dominant cs after_dominant
           \<and> classify_region_change before_seg after_seg rm =
               Inr (classify_spec before_dominant after_dominant bs cs)" by blast
  from first pure classify_spec_tolerance [of _ _ bs cs] show ?thesis by blast
qed

theorem classify_region_change_spec_witness:
  "select_mask [[1, 1], [1, 2]] [[True, True], [True, False]] = Inr [1, 1, 1 :: nat]
   \<and> select_mask [[2, 2], [2, 2]] [[True, True], [True, False]] = Inr [2, 2, 2 :: nat]
   \<and> [1, 1, 1] \<noteq> ([] :: nat list) \<and> [2, 2, 2] \<noteq> ([] :: nat list)
   \<and> (\<exists>before_dominant after_dominant.
         is_dominant [1, 1, 1] before_dominant \<and> is_dominant [2, 2, 2] after_dominant
         \<and> classify_region_change [[1, 1], [1, 2]] [[2, 2], [2, 2]] [[True, True], [True, False]] =
             Inr (classify_spec before_dominant after_dominant [1, 1, 1] [2, 2, 2]))
   \<and> classify_region_change [[1, 1], [1, 2]] [[2, 2], [2, 2]] [[True, True], [True, False]]
       = Inr URBANIZATION"
proof -
  have b: "select_mask [[1, 1], [1, 2]] [[True, True], [True, False]] = Inr [1, 1, 1 :: nat]"
    by (simp add: select_mask_def shape_def)
  have a: "select_mask [[2, 2], [2, 2]] [[True, True], [True, False]] = Inr [2, 2, 2 :: nat]"
    by (simp add: select_mask_def shape_def)
  have n: "[1, 1, 1] \<noteq> ([] :: nat list)" "[2, 2, 2] \<noteq> ([] :: nat list)" by simp_all
  from classify_region_change_spec [OF b a n] a b n classify_examples(1)
  show ?thesis by blast
qed

subsection \<open>Change regions\<close>

lemma clamp_range:
  "b \<le> a \<Longrightarrow> b \<le> min a (max b (x::real)) \<and> min a (max b x) \<le> a"
  by (simp add: min_def max_def)

lemma estimate_confidence_range:
  assumes "estimate_confidence b a rm = Inr c"
  shows "round_f64 (3 / 10) \<le> c \<and> c \<le> round_f64 (95 / 100)"
proof -
  from assms obtain x where c: "c = min (round_f64 (95 / 100)) (max (round_f64 (3 / 10)) x)"
    by (auto simp: estimate_confidence_def Let_def split: sum.splits)
  have "round_f64 (3 / 10) \<le> round_f64 (95 / 100)"
    by (simp only: f64_three_tenths f64_constants) simp
  from clamp_range [OF this] show ?thesis unfolding c by blast
qed

lemma sum_list_bounds:
  "(\<And>v. v \<in> set vs \<Longrightarrow> 0 \<le> v \<and> v \<le> (1::real)) \<Longrightarrow>
   0 \<le> sum_list vs \<and> sum_list vs \<le> real (length vs)"
  by (induction vs) (auto simp: add_nonneg_nonneg intro: add_mono)

lemma np_mean_unit:
  assumes "\<And>v. v \<in> set vs \<Longrightarrow> 0 \<le> v \<and> v \<le> (1::real)"
  shows "0 \<le> np_mean vs \<and> np_mean vs \<le> 1"
proof (cases "vs = []")
  case True
  then show ?thesis by (simp add: np_mean_def)
next
  case False
  then have pos: "0 < real (length vs)" by simp
  from sum_list_bounds [OF assms] have b: "0 \<le> sum_list vs" "sum_list vs \<le> real (length vs)"
    by simp_all
  from b(1) have "0 \<le> sum_list vs / real (length vs)" by simp
  moreover from b(2) pos have "sum_list vs / real (length vs) \<le> 1"
    by (simp add: divide_le_eq)
  ultimately show ?thesis by (simp add: np_mean_def)
qed

lemma select_mask_subset:
  assumes "select_mask a rm = Inr vs"
  shows "set vs \<subseteq> set (concat a)"
proof
  fix v
  assume "v \<in> set vs"
  with assms obtain t where "(v, t) \<in> set (zip (concat a) (concat rm))"
    by (auto simp: select_mask_def split: if_splits)
  then show "v \<in> set (concat a)" by (rule set_zip_leftD)
qed

lemma region_confidence_range:
  assumes "region_confidence b a sc rm = Inr c"
  shows "(scores_in_unit sc \<longrightarrow> 0 \<le> c \<and> c \<le> 1)
         \<and> (sc = None \<longrightarrow> round_f64 (3 / 10) \<le> c \<and> c \<le> round_f64 (95 / 100))"
proof (cases sc)
  case None
  with assms have "estimate_confidence b a rm = Inr c"
    by (simp add: region_confidence_def)
  from estimate_confidence_range [OF this]
  have r: "round_f64 (3 / 10) \<le> c" "c \<le> round_f64 (95 / 100)" by simp_all
  have "0 \<le> round_f64 (3 / 10)" "round_f64 (95 / 100) \<le> 1"
    by (simp_all only: f64_three_tenths f64_constants) simp_all
  with r have "0 \<le> c \<and> c \<le> 1" by linarith
  with r show ?thesis by simp
next
  case (Some scores)
  with assms obtain vs where vs: "select_mask scores rm = Inr vs" "c = np_mean vs"
    by (auto simp: region_confidence_def split: sum.splits)
  have "0 \<le> c \<and> c \<le> 1" if u: "scores_in_unit sc"
  proof -
    have "0 \<le> v \<and> v \<le> 1" if "v \<in> set vs" for v
    proof -
      from that select_mask_subset [OF vs(1)] have "v \<in> set (concat scores)" by blast
      with u Some show ?thesis
        by (auto simp: scores_in_unit_def list_all_iff)
    qed
    then show ?thesis unfolding vs(2) by (rule np_mean_unit)
  qed
  with Some show ?thesis by simp
qed

lemma detect_regions_filter:
  "detect_regions r b a sc cs = detect_regions r b a sc (filter (large_enough r) cs)"
  by (induction cs) (simp_all add: large_enough_def Let_def split: sum.splits)

lemma detect_regions_accepted:
  "detect_regions r b a sc cs = Inr ds \<Longrightarrow> d \<in> set ds \<Longrightarrow>
   1 / 10 \<le> area_hectares d
   \<and> (scores_in_unit sc \<longrightarrow> 0 \<le> confidence d \<and> confidence d \<le> 1)
   \<and> (sc = None \<longrightarrow> round_f64 (3 / 10) \<le> confidence d \<and> confidence d \<le> round_f64 (95 / 100))"
proof (induction cs arbitrary: ds)
  case Nil
  then show ?case by simp
next
  case (Cons c cs)
  let ?area = "round_f64 (real_of_int (cc_area c) * r)"
  show ?case
  proof (cases "?area < round_f64 (1 / 10)")
    case True
    with Cons.prems(1) have "detect_regions r b a sc cs = Inr ds" by (simp add: Let_def)
    from Cons.IH [OF this Cons.prems(2)] show ?thesis .
  next
    case False
    with Cons.prems(1) obtain change conf ds'
      where parts: "region_confidence b a sc (region_mask c) = Inr conf"
        "detect_regions r b a sc cs = Inr ds'"
        "ds = \<lparr>change_type = change, confidence = conf, bbox = get_bounding_box c,
               area_hectares = ?area,
               severity = calculate_severity change ?area conf\<rparr> # ds'"
      by (auto simp: Let_def split: sum.splits)
    note conf = region_confidence_range [OF parts(1)]
    from False have "round_f64 (1 / 10) \<le> ?area" by simp
    moreover have "(1::real) / 10 \<le> round_f64 (1 / 10)"
      by (simp only: f64_constants) simp
    ultimately have area: "1 / 10 \<le> ?area" by linarith
    from Cons.prems(2) parts(3) consider
      "d = \<lparr>change_type = change, confidence = conf, bbox = get_bounding_box c,
               area_hectares = ?area,
               severity = calculate_severity change ?area conf\<rparr>"
      | "d \<in> set ds'" by auto
    then show ?thesis
    proof cases
      case 1
      with area conf show ?thesis by simp
    next
      case 2
      from Cons.IH [OF parts(2) 2] show ?thesis .
    qed
  qed
qed

lemma classify_region_change_returns:
  assumes "select_mask b rm = Inr bs" and "select_mask a rm = Inr cs"
    and "bs \<noteq> []" and "cs \<noteq> []"
  shows "\<exists>t. classify_region_change b a rm = Inr t"
proof -
  from argmax_bincount_dominant [OF assms(3)] obtain bd
    where bd: "argmax (bincount bs 0) = Inr bd" by blast
  from argmax_bincount_dominant [OF assms(4)] obtain ad
    where ad: "argmax (bincount cs 0) = Inr ad" by blast
  show ?thesis
    using assms(1,2) bd ad
    by (simp add: classify_region_change_def Let_def split: option.splits)
qed

lemma estimate_confidence_returns:
  assumes "select_mask b rm = Inr bs" and "select_mask a rm = Inr cs"
    and "bs \<noteq> []" and "cs \<noteq> []"
  shows "\<exists>c. estimate_confidence b a rm = Inr c"
proof -
  from argmax_bincount_dominant [OF assms(3)] obtain bd
    where bd: "argmax (bincount bs 0) = Inr bd" by blast
  from argmax_bincount_dominant [OF assms(4)] obtain ad
    where ad: "argmax (bincount cs 0) = Inr ad" by blast
  show ?thesis
    using assms(1,2) bd ad
    by (simp add: estimate_confidence_def Let_def)
qed

lemma region_ok_returns:
  assumes "region_ok b a sc c"
  shows "(\<exists>t. classify_region_change b a (region_mask c) = Inr t)
         \<and> (\<exists>v. region_confidence b a sc (region_mask c) = Inr v)"
proof -
  from assms obtain bs cs
    where sel: "select_mask b (region_mask c) = Inr bs" "select_mask a (region_mask c) = Inr cs"
      "bs \<noteq> []" "cs \<noteq> []"
    by (auto simp: region_ok_def split: sum.splits)
  have conf: "\<exists>v. region_confidence b a sc (region_mask c) = Inr v"
  proof (cases sc)
    case None
    with estimate_confidence_returns [OF sel] show ?thesis
      by (simp add: region_confidence_def)
  next
    case (Some scores)
    with assms have "shape scores = shape (region_mask c)"
      by (simp add: region_ok_def)
    with Some show ?thesis
      by (simp add: region_confidence_def select_mask_def)
  qed
  with classify_region_change_returns [OF sel] show ?thesis by blast
qed

lemma detect_regions_returns:
  "list_all (region_ok b a sc) (filter (large_enough r) cs) \<Longrightarrow>
   \<exists>ds. detect_regions r b a sc cs = Inr ds"
proof (induction cs)
  case Nil
  then show ?case by simp
next
  case (Cons c cs)
  show ?case
  proof (cases "large_enough r c")
    case False
    with Cons show ?thesis by (simp add: large_enough_def Let_def)
  next
    case True
    with Cons.prems have ok: "region_ok b a sc c"
      and rest: "list_all (region_ok b a sc) (filter (large_enough r) cs)" by simp_all
    from Cons.IH [OF rest] obtain ds where ds: "detect_regions r b a sc cs = Inr ds" by blast
    from region_ok_returns [OF ok] obtain t v
      where "classify_region_change b a (region_mask c) = Inr t"
        "region_confidence b a sc (region_mask c) = Inr v" by blast
    with True ds show ?thesis by (simp add: large_enough_def Let_def)
  qed
qed

lemma two_components_run:
  "detect_change_regions two_components 0.0625
     [[1, 1, 0, 0], [1, 1, 0, 3]] [[2, 2, 0, 0], [2, 2, 0, 4]] [[1, 1, 0, 0], [1, 1, 0, 1]] None =
   Inr [\<lparr>change_type = URBANIZATION, confidence = round_f64 (95 / 100), bbox = (0, 0, 2, 2),
         area_hectares = 0.25, severity = ''medium''\<rparr>]"
  by ((simp add: detect_change_regions_def two_components_def
        classify_region_change_def region_confidence_def estimate_confidence_def
        select_mask_def shape_def argmax_def bincount_def class_name_def
        LAND_COVER_CLASSES_def CHANGE_RULES_def is_disaster_pattern_def
        calculate_severity_def get_bounding_box_def upt_rec
      | simp add: f64_eval)+)

lemma two_components_percent_run:
  "detect_change_regions two_components 0.0625
     [[1, 1, 0, 0], [1, 1, 0, 3]] [[2, 2, 0, 0], [2, 2, 0, 4]] [[1, 1, 0, 0], [1, 1, 0, 1]]
     (Some [[90, 90, 90, 90], [90, 90, 90, 90]]) =
   Inr [\<lparr>change_type = URBANIZATION, confidence = 90, bbox = (0, 0, 2, 2),
         area_hectares = 0.25, severity = ''medium''\<rparr>]"
  by ((simp add: detect_change_regions_def two_components_def
        classify_region_change_def region_confidence_def np_mean_def
        select_mask_def shape_def argmax_def bincount_def class_name_def
        LAND_COVER_CLASSES_def CHANGE_RULES_def is_disaster_pattern_def
        calculate_severity_def get_bounding_box_def upt_rec
      | simp add: f64_eval)+)

text \<open>
  Claim C8, as stated, fails: with per-pixel confidence scores on a percent scale the
  detection that is returned carries the confidence 90, the mean of the scores over the
  region.
\<close>

theorem confidence_out_of_range_counterexample:
  "detect_change_regions two_components 0.0625
     [[1, 1, 0, 0], [1, 1, 0, 3]] [[2, 2, 0, 0], [2, 2, 0, 4]] [[1, 1, 0, 0], [1, 1, 0, 1]]
     (Some [[90, 90, 90, 90], [90, 90, 90, 90]]) =
   Inr [\<lparr>change_type = URBANIZATION, confidence = 90, bbox = (0, 0, 2, 2),
         area_hectares = 0.25, severity = ''medium''\<rparr>]"
  by (rule two_components_percent_run)

text \<open>
  Claim C8, amended. Every \<open>ChangeDetection\<close> returned by
  \<open>_detect_change_regions\<close> has an area of at least 0.1 hectare, whatever the
  scores. Its confidence is in [0, 1] provided that the supplied per-pixel confidence
  scores, if any, all lie in [0, 1]; when no scores are supplied it lies between the
  doubles 0.3 and 0.95. Components below the threshold are dropped silently: the call
  behaves as if they were not there, and it returns a list whenever each component that
  is kept has a mask that fits the arrays and selects at least one pixel.
\<close>

theorem detect_change_regions_accepted:
  "detect_change_regions cc r b a cm sc =
     detect_change_regions (\<lambda>m. filter (large_enough r) (cc m)) r b a cm sc
   \<and> (\<forall>ds. detect_change_regions cc r b a cm sc = Inr ds \<longrightarrow>
         (\<forall>d \<in> set ds.
            1 / 10 \<le> area_hectares d
            \<and> (scores_in_unit sc \<longrightarrow> 0 \<le> confidence d \<and> confidence d \<le> 1)
            \<and> (sc = None \<longrightarrow>
                  round_f64 (3 / 10) \<le> confidence d \<and> confidence d \<le> round_f64 (95 / 100))))
   \<and> (list_all (region_ok b a sc) (filter (large_enough r) (cc cm)) \<longrightarrow>
         (\<exists>ds. detect_change_regions cc r b a cm sc = Inr ds))"
  using detect_regions_filter [of r b a sc "cc cm"]
    detect_regions_accepted [of r b a sc "cc cm"]
    detect_regions_returns [of b a sc r "cc cm"]
  unfolding detect_change_regions_def by blast

theorem detect_change_regions_accepted_witness:
  "(\<exists>ds. detect_change_regions two_components 0.0625
          [[1, 1, 0, 0], [1, 1, 0, 3]] [[2, 2, 0, 0], [2, 2, 0, 4]] [[1, 1, 0, 0], [1, 1, 0, 1]] None
          = Inr ds \<and> ds \<noteq> []
        \<and> (\<forall>d \<in> set ds. 1 / 10 \<le> area_hectares d \<and> 0 \<le> confidence d \<and> confidence d \<le> 1
               \<and> round_f64 (3 / 10) \<le> confidence d \<and> confidence d \<le> round_f64 (95 / 100)))
   \<and> (\<exists>ds. detect_change_regions two_components 0.0625
          [[1, 1, 0, 0], [1, 1, 0, 3]] [[2, 2, 0, 0], [2, 2, 0, 4]] [[1, 1, 0, 0], [1, 1, 0, 1]]
          (Some [[90, 90, 90, 90], [90, 90, 90, 90]])
          = Inr ds \<and> ds \<noteq> []
        \<and> (\<forall>d \<in> set ds. 1 / 10 \<le> area_hectares d))"
proof -
  let ?b = "[[1, 1, 0, 0], [1, 1, 0, 3 :: nat]]" and ?a = "[[2, 2, 0, 0], [2, 2, 0, 4 :: nat]]"
  let ?cm = "[[1, 1, 0, 0], [1, 1, 0, 1 :: nat]]"
  let ?pct = "Some [[90, 90, 90, 90], [90, 90, 90, 90 :: real]]"
  have u: "scores_in_unit None" by (simp add: scores_in_unit_def)
  from detect_change_regions_accepted [of two_components "0.0625" ?b ?a ?cm None]
    two_components_run u
  have first: "\<exists>ds. detect_change_regions two_components 0.0625 ?b ?a ?cm None = Inr ds
      \<and> ds \<noteq> []
      \<and> (\<forall>d \<in> set ds. 1 / 10 \<le> area_hectares d \<and> 0 \<le> confidence d \<and> confidence d \<le> 1
             \<and> round_f64 (3 / 10) \<le> confidence d \<and> confidence d \<le> round_f64 (95 / 100))"
    by (metis list.distinct(1))
  have run2: "\<exists>ds. detect_change_regions two_components 0.0625 ?b ?a ?cm ?pct = Inr ds
                 \<and> ds \<noteq> []"
    using two_components_percent_run by (metis list.distinct(1))
  from detect_change_regions_accepted [of two_components "0.0625" ?b ?a ?cm ?pct] run2
  have second: "\<exists>ds. detect_change_regions two_components 0.0625 ?b ?a ?cm ?pct = Inr ds
      \<and> ds \<noteq> [] \<and> (\<forall>d \<in> set ds. 1 / 10 \<le> area_hectares d)"
    by blast
  from first second show ?thesis by blast
qed

section \<open>Properties of the spatial clusterer\<close>

subsection \<open>Grouping by label\<close>

lemma cluster_append_new:
  "l \<notin> set (map fst cl) \<Longrightarrow> cluster_append cl (l, d) = cl @ [(l, [d])]"
proof -
  assume n: "l \<notin> set (map fst cl)"
  then have "map (\<lambda>(k, ds). if k = l then (k, ds @ [d]) else (k, ds)) cl = cl"
    by (induction cl) auto
  with n show ?thesis by (simp add: cluster_append_def)
qed

lemma cluster_append_keys:
  "map fst (cluster_append cl (l, d)) =
     (if l \<in> set (map fst cl) then map fst cl else map fst cl @ [l])"
  by (auto simp: cluster_append_def Let_def split_def comp_def)

lemma cluster_append_old_members:
  "distinct (map fst cl) \<Longrightarrow> l \<in> set (map fst cl) \<Longrightarrow>
   mset (concat (map snd (map (\<lambda>(k, ds). if k = l then (k, ds @ [d]) else (k, ds)) cl))) =
     add_mset d (mset (concat (map snd cl)))"
proof (induction cl)
  case Nil
  then show ?case by simp
next
  case (Cons c cl)
  obtain k ds where c: "c = (k, ds)" by (cases c)
  show ?case
  proof (cases "k = l")
    case True
    with Cons.prems c have "l \<notin> set (map fst cl)" by auto
    then have "map (\<lambda>(k, ds). if k = l then (k, ds @ [d]) else (k, ds)) cl = cl"
      by (induction cl) auto
    with True c show ?thesis by simp
  next
    case False
    with Cons.prems c have "distinct (map fst cl)" "l \<in> set (map fst cl)" by auto
    from Cons.IH [OF this] False c show ?thesis by simp
  qed
qed

lemma cluster_append_members:
  assumes "distinct (map fst cl)"
  shows "mset (concat (map snd (cluster_append cl (l, d)))) =
           add_mset d (mset (concat (map snd cl)))"
proof (cases "l \<in> set (map fst cl)")
  case True
  with cluster_append_old_members [OF assms True, of d] show ?thesis
    by (simp add: cluster_append_def)
next
  case False
  then show ?thesis by (simp add: cluster_append_new)
qed

lemma cluster_append_nonempty:
  "list_all (\<lambda>(k, ds). ds \<noteq> []) cl \<Longrightarrow>
   list_all (\<lambda>(k, ds). ds \<noteq> []) (cluster_append cl (l, d))"
  by (fastforce simp: cluster_append_def Let_def list_all_iff split: if_splits)

lemma grouped_step:
  assumes "grouped cl items"
  shows "grouped (cluster_append cl (l, d)) (items @ [(l, d)])"
proof -
  from assms have d: "distinct (map fst cl)" and k: "set (map fst cl) = set (map fst items)"
    and n: "list_all (\<lambda>(k, ds). ds \<noteq> []) cl"
    and m: "mset (concat (map snd cl)) = mset (map snd items)"
    by (simp_all add: grouped_def)
  have "distinct (map fst (cluster_append cl (l, d)))"
    using d by (simp add: cluster_append_keys)
  moreover have "set (map fst (cluster_append cl (l, d))) = set (map fst (items @ [(l, d)]))"
    using k by (auto simp: cluster_append_keys)
  moreover note cluster_append_nonempty [OF n, of l d]
  moreover have "mset (concat (map snd (cluster_append cl (l, d)))) =
                 mset (map snd (items @ [(l, d)]))"
    using m by (simp add: cluster_append_members [OF d])
  ultimately show ?thesis by (simp add: grouped_def)
qed

lemma grouped_foldl:
  "grouped cl done \<Longrightarrow> grouped (foldl cluster_append cl items) (done @ items)"
proof (induction items arbitrary: cl "done")
  case Nil
  then show ?case by simp
next
  case (Cons item items)
  obtain l d where item: "item = (l, d)" by (cases item)
  from grouped_step [OF Cons.prems, of l d]
  have "grouped (cluster_append cl item) (done @ [item])" by (simp add: item)
  from Cons.IH [OF this] show ?case by simp
qed

lemma grouped_group_by_label: "grouped (group_by_label labels ds) (zip labels ds)"
proof -
  have "grouped ([] :: (int \<times> 'a list) list) []" by (simp add: grouped_def)
  from grouped_foldl [OF this, of "zip labels ds"] show ?thesis
    by (simp add: group_by_label_def)
qed

subsection \<open>Summaries\<close>

lemma max_from_in: "max_from key b xs \<in> set (b # xs)"
  by (induction xs arbitrary: b) auto

lemma max_from_ge: "x \<in> set (b # xs) \<Longrightarrow> key x \<le> key (max_from key b xs)"
proof (induction xs arbitrary: b x)
  case Nil
  then show ?case by simp
next
  case (Cons y ys)
  let ?b = "if key b < key y then y else b"
  have step: "max_from key b (y # ys) = max_from key ?b ys" by simp
  from Cons.prems consider "x = b" | "x = y" | "x \<in> set ys" by auto
  then show ?case
  proof cases
    case 1
    have "key b \<le> key ?b" by simp
    also have "\<dots> \<le> key (max_from key ?b ys)" by (rule Cons.IH) simp
    finally show ?thesis using 1 step by simp
  next
    case 2
    have "key y \<le> key ?b" by simp
    also have "\<dots> \<le> key (max_from key ?b ys)" by (rule Cons.IH) simp
    finally show ?thesis using 2 step by simp
  next
    case 3
    then have "key x \<le> key (max_from key ?b ys)" by (intro Cons.IH) simp
    with step show ?thesis by simp
  qed
qed

lemma py_max_Inr:
  assumes "py_max key xs = Inr m"
  shows "m \<in> set xs \<and> (\<forall>x \<in> set xs. key x \<le> key m)"
proof (cases xs)
  case Nil
  with assms show ?thesis by (simp add: py_max_def)
next
  case (Cons b rest)
  with assms have m: "m = max_from key b rest" by (simp add: py_max_def)
  show ?thesis
    unfolding m Cons using max_from_in [of key b rest] max_from_ge [of _ b rest key] by blast
qed

lemma py_max_returns: "xs \<noteq> [] \<Longrightarrow> \<exists>m. py_max key xs = Inr m"
  by (cases xs) (simp_all add: py_max_def)

lemma cluster_summary_fields:
  assumes "cluster_summary si dets = Inr g"
  shows "group_type g = ''cluster'' \<and> group_detections g = dets \<and> group_count g = length dets
         \<and> dets \<noteq> []
         \<and> total_area_hectares g = sum_list (map area_hectares dets)
         \<and> avg_confidence g = sum_list (map confidence dets) / real (length dets)
         \<and> py_max (count_list (map (\<lambda>d. change_type_value (change_type d)) dets))
              (si (map (\<lambda>d. change_type_value (change_type d)) dets))
             = Inr (dominant_change_type g)
         \<and> py_max severity_key (map severity dets) = Inr (max_severity g)"
  using assms
  by (auto simp: cluster_summary_def Let_def split: sum.splits if_splits)

lemma cluster_summary_returns:
  assumes "iterates_set si" and "dets \<noteq> []"
  shows "\<exists>g. cluster_summary si dets = Inr g"
proof -
  let ?cts = "map (\<lambda>d. change_type_value (change_type d)) dets"
  from assms(1) have "set (si ?cts) = set ?cts" by (simp add: iterates_set_def)
  with assms(2) have "si ?cts \<noteq> []" by auto
  from py_max_returns [OF this] obtain t where t: "py_max (count_list ?cts) (si ?cts) = Inr t"
    by blast
  from assms(2) have "map severity dets \<noteq> []" by simp
  from py_max_returns [OF this] obtain v where v: "py_max severity_key (map severity dets) = Inr v"
    by blast
  from t v assms(2) show ?thesis by (simp add: cluster_summary_def Let_def)
qed

lemma cluster_summaries_origin:
  "cluster_summaries si cl = Inr groups \<Longrightarrow> g \<in> set groups \<Longrightarrow>
   (\<exists>d. g = individual d) \<or> (\<exists>dets. cluster_summary si dets = Inr g)"
proof (induction cl arbitrary: groups)
  case Nil
  then show ?case by simp
next
  case (Cons c cl)
  obtain k dets where c: "c = (k, dets)" by (cases c)
  show ?case
  proof (cases "k = -1")
    case True
    with Cons.prems(1) c obtain gs where gs: "cluster_summaries si cl = Inr gs"
      "groups = map individual dets @ gs"
      by (auto split: sum.splits)
    with Cons.prems(2) consider "g \<in> set (map individual dets)" | "g \<in> set gs" by auto
    then show ?thesis
    proof cases
      case 1
      then show ?thesis by auto
    next
      case 2
      from Cons.IH [OF gs(1) 2] show ?thesis .
    qed
  next
    case False
    with Cons.prems(1) c obtain g0 gs where gs: "cluster_summary si dets = Inr g0"
      "cluster_summaries si cl = Inr gs" "groups = g0 # gs"
      by (auto split: sum.splits)
    with Cons.prems(2) consider "g = g0" | "g \<in> set gs" by auto
    then show ?thesis
    proof cases
      case 1
      with gs(1) show ?thesis by blast
    next
      case 2
      from Cons.IH [OF gs(2) 2] show ?thesis .
    qed
  qed
qed

lemma cluster_summaries_no_noise:
  assumes "iterates_set si"
  shows "list_all (\<lambda>(k, ds). ds \<noteq> []) cl \<Longrightarrow> -1 \<notin> set (map fst cl) \<Longrightarrow>
   \<exists>groups. cluster_summaries si cl = Inr groups
     \<and> list_all (\<lambda>g. group_type g = ''cluster'') groups
     \<and> map group_detections groups = map snd cl
     \<and> map group_count groups = map (\<lambda>c. length (snd c)) cl"
proof (induction cl)
  case Nil
  then show ?case by simp
next
  case (Cons c cl)
  obtain k dets where c: "c = (k, dets)" by (cases c)
  from Cons.prems c have k: "k \<noteq> -1" and ne: "dets \<noteq> []"
    and rest: "list_all (\<lambda>(k, ds). ds \<noteq> []) cl" "-1 \<notin> set (map fst cl)"
    by auto
  from Cons.IH [OF rest] obtain gs where gs: "cluster_summaries si cl = Inr gs"
    "list_all (\<lambda>g. group_type g = ''cluster'') gs"
    "map group_detections gs = map snd cl"
    "map group_count gs = map (\<lambda>c. length (snd c)) cl" by blast
  from cluster_summary_returns [OF assms ne] obtain g where g: "cluster_summary si dets = Inr g"
    by blast
  from cluster_summary_fields [OF g]
  have f: "group_type g = ''cluster''" "group_detections g = dets" "group_count g = length dets"
    by simp_all
  have "cluster_summaries si (c # cl) = Inr (g # gs)"
    using k g gs(1) c by simp
  with gs f c show ?case by simp
qed

text \<open>
  The key of the source respects the order of the four severity names, and the strings
  of the change types are pairwise different.
\<close>

lemma severity_lt_key: "severity_lt a b \<Longrightarrow> severity_key a < severity_key b"
  by (auto simp: severity_lt_def severity_key_def severity_order_def)

lemma change_type_value_inj: "change_type_value x = change_type_value y \<Longrightarrow> x = y"
  by (cases x; cases y; simp)

lemma count_list_change_types:
  "count_list (map (\<lambda>d. change_type_value (change_type d)) dets)
     (change_type_value t) = length (filter (\<lambda>x. change_type x = t) dets)"
  by (induction dets) (auto dest: change_type_value_inj)

text \<open>The three detections form one group.\<close>

lemma three_detections_run:
  "cluster_nearby_changes one_cluster remdups three_detections 1000 =
     Inr [\<lparr>group_type = ''cluster'', group_detections = three_detections, group_count = 3,
           dominant_change_type = ''urbanization'', total_area_hectares = 6,
           max_severity = ''high'', avg_confidence = 0.8\<rparr>]"
  by (simp add: cluster_nearby_changes_def one_cluster_def three_detections_def Let_def
      group_by_label_def cluster_append_def cluster_summary_def py_max_def
      severity_key_def severity_order_def)

text \<open>
  Claim C7. Every group of type \<open>cluster\<close> returned by \<open>cluster_nearby_changes\<close>
  has at least one member; its \<open>total_area_hectares\<close> is the sum of the members'
  areas and its \<open>avg_confidence\<close> the arithmetic mean of their confidences (in exact
  arithmetic); its \<open>max_severity\<close> is the severity of a member, and no member has a
  severity above it in the order low < medium < high < critical; its
  \<open>dominant_change_type\<close> is the string of the change type of a member, and no change
  type has more members than that one. This holds for every order in which the set of
  change types is iterated.
\<close>

theorem cluster_summary_aggregates:
  assumes "iterates_set set_iter"
    and "cluster_nearby_changes dbscan set_iter change_detections max_distance_meters = Inr groups"
    and "g \<in> set groups" and "group_type g = ''cluster''"
  shows "group_detections g \<noteq> []
     \<and> total_area_hectares g = sum_list (map area_hectares (group_detections g))
     \<and> avg_confidence g =
         sum_list (map confidence (group_detections g)) / real (length (group_detections g))
     \<and> (\<exists>d \<in> set (group_detections g). max_severity g = severity d)
     \<and> (\<forall>d \<in> set (group_detections g). \<not> severity_lt (max_severity g) (severity d))
     \<and> (\<forall>d \<in> set (group_detections g). severity_key (severity d) \<le> severity_key (max_severity g))
     \<and> (\<exists>d \<in> set (group_detections g).
           dominant_change_type g = change_type_value (change_type d)
           \<and> (\<forall>d' \<in> set (group_detections g).
                 length (filter (\<lambda>x. change_type x = change_type d') (group_detections g))
                 \<le> length (filter (\<lambda>x. change_type x = change_type d) (group_detections g))))"
proof -
  from assms(3) have "change_detections \<noteq> []"
    using assms(2) by (auto simp: cluster_nearby_changes_def)
  with assms(2) obtain labels
    where "cluster_summaries set_iter (group_by_label labels change_detections) = Inr groups"
    by (auto simp: cluster_nearby_changes_def Let_def split: sum.splits)
  from cluster_summaries_origin [OF this assms(3)] assms(4)
  obtain dets where s: "cluster_summary set_iter dets = Inr g"
    by (auto simp: individual_def)
  let ?cts = "map (\<lambda>d. change_type_value (change_type d)) dets"
  from cluster_summary_fields [OF s]
  have f: "group_detections g = dets" "dets \<noteq> []"
    "total_area_hectares g = sum_list (map area_hectares dets)"
    "avg_confidence g = sum_list (map confidence dets) / real (length dets)"
    and dom: "py_max (count_list ?cts) (set_iter ?cts) = Inr (dominant_change_type g)"
    and sev: "py_max severity_key (map severity dets) = Inr (max_severity g)"
    by simp_all
  from py_max_Inr [OF sev]
  have sev1: "\<exists>d \<in> set dets. max_severity g = severity d"
    and sev2: "\<forall>d \<in> set dets. severity_key (severity d) \<le> severity_key (max_severity g)"
    by auto
  have sev3: "\<not> severity_lt (max_severity g) (severity d)" if "d \<in> set dets" for d
  proof
    assume "severity_lt (max_severity g) (severity d)"
    then have "severity_key (max_severity g) < severity_key (severity d)"
      by (rule severity_lt_key)
    with sev2 that show False by fastforce
  qed
  from assms(1) have it: "set (set_iter ?cts) = set ?cts" by (simp add: iterates_set_def)
  from py_max_Inr [OF dom] it
  have dom1: "dominant_change_type g \<in> set ?cts"
    and dom2: "\<forall>t \<in> set ?cts. count_list ?cts t \<le> count_list ?cts (dominant_change_type g)"
    by simp_all
  from dom1 obtain d where d: "d \<in> set dets"
    "dominant_change_type g = change_type_value (change_type d)" by auto
  have dom3: "length (filter (\<lambda>x. change_type x = change_type d') dets)
              \<le> length (filter (\<lambda>x. change_type x = change_type d) dets)"
    if "d' \<in> set dets" for d'
  proof -
    from that have "change_type_value (change_type d') \<in> set ?cts" by auto
    with dom2 have "count_list ?cts (change_type_value (change_type d'))
                    \<le> count_list ?cts (change_type_value (change_type d))"
      unfolding d(2) by blast
    then show ?thesis by (simp only: count_list_change_types)
  qed
  from d dom3 have dom4: "\<exists>d \<in> set dets.
           dominant_change_type g = change_type_value (change_type d)
           \<and> (\<forall>d' \<in> set dets.
                 length (filter (\<lambda>x. change_type x = change_type d') dets)
                 \<le> length (filter (\<lambda>x. change_type x = change_type d) dets))" by blast
  from f sev1 sev2 sev3 dom4 show ?thesis
    unfolding f(1) by blast
qed

theorem cluster_summary_aggregates_witness:
  "iterates_set remdups
   \<and> (\<exists>groups g. cluster_nearby_changes one_cluster remdups three_detections 1000 = Inr groups
         \<and> g \<in> set groups \<and> group_type g = ''cluster''
         \<and> group_detections g \<noteq> []
         \<and> total_area_hectares g = sum_list (map area_hectares (group_detections g))
         \<and> total_area_hectares g = 6
         \<and> avg_confidence g =
             sum_list (map confidence (group_detections g)) / real (length (group_detections g))
         \<and> max_severity g = ''high''
         \<and> (\<exists>d \<in> set (group_detections g). max_severity g = severity d)
         \<and> dominant_change_type g = ''urbanization''
         \<and> (\<exists>d \<in> set (group_detections g).
               dominant_change_type g = change_type_value (change_type d)))"
proof -
  let ?g = "\<lparr>group_type = ''cluster'', group_detections = three_detections, group_count = 3,
           dominant_change_type = ''urbanization'', total_area_hectares = 6,
           max_severity = ''high'', avg_confidence = 0.8\<rparr>"
  have it: "iterates_set remdups" by (simp add: iterates_set_def)
  have run: "cluster_nearby_changes one_cluster remdups three_detections 1000 = Inr [?g]"
    by (rule three_detections_run)
  have mem: "?g \<in> set [?g]" by simp
  have ty: "group_type ?g = ''cluster''" by simp
  have vals: "total_area_hectares ?g = 6" "max_severity ?g = ''high''"
    "dominant_change_type ?g = ''urbanization''" by simp_all
  from cluster_summary_aggregates [OF it run mem ty] it run mem ty vals show ?thesis by blast
qed

subsection \<open>No noise with \<open>min_samples = 1\<close>\<close>

lemma every_point_core:
  assumes "0 < eps" and "p \<in> set pts"
  shows "core_point eps 1 pts p"
proof -
  have "euclidean p p \<le> eps" using assms(1) by (simp add: euclidean_def)
  with assms(2) have "filter (\<lambda>q. euclidean p q \<le> eps) pts \<noteq> []"
    by (auto simp: filter_empty_conv)
  then have "length (filter (\<lambda>q. euclidean p q \<le> eps) pts) \<noteq> 0"
    by (simp only: length_0_conv not_False_eq_True)
  then have "1 \<le> length (filter (\<lambda>q. euclidean p q \<le> eps) pts)" by linarith
  then show ?thesis by (simp only: core_point_def)
qed

lemma labels_not_negative:
  assumes "0 < eps" and "dbscan_labels eps 1 pts (Inr labels)" and "l \<in> set labels"
  shows "0 \<le> l"
proof -
  from assms(2) have len: "length labels = length pts"
    and all: "list_all (\<lambda>(p, l). core_point eps 1 pts p \<longrightarrow> 0 \<le> l) (zip pts labels)"
    by (simp_all add: dbscan_labels_def)
  from assms(3) obtain i where i: "i < length labels" "labels ! i = l"
    by (auto simp: in_set_conv_nth)
  with len have "(pts ! i, l) \<in> set (zip pts labels)"
    by (auto simp: in_set_zip)
  with all have "core_point eps 1 pts (pts ! i) \<longrightarrow> 0 \<le> l"
    by (auto simp: list_all_iff)
  moreover from i len have "pts ! i \<in> set pts" by simp
  ultimately show ?thesis using every_point_core [OF assms(1)] by blast
qed

text \<open>
  Claim C10. For a non-empty list of detections and a positive maximal distance, DBSCAN
  run with \<open>min_samples = 1\<close> labels no point as noise, since every point is a core
  point. So \<open>cluster_nearby_changes\<close> returns groups that are all of type
  \<open>cluster\<close> (the branch for noise, with groups of type \<open>individual\<close>, is not
  taken), the members of the groups together are exactly the input detections, each
  once, and the counts of the groups add up to the number of input detections.
\<close>

theorem min_samples_one_no_noise:
  assumes "change_detections \<noteq> []" and "0 < max_distance_meters"
    and "dbscan_labels (max_distance_meters / 10) 1 (map center change_detections)
           (dbscan (max_distance_meters / 10) 1 (map center change_detections))"
    and "iterates_set set_iter"
  shows "\<exists>groups. cluster_nearby_changes dbscan set_iter change_detections max_distance_meters
                    = Inr groups
           \<and> list_all (\<lambda>g. group_type g = ''cluster'') groups
           \<and> mset (concat (map group_detections groups)) = mset change_detections
           \<and> sum_list (map group_count groups) = length change_detections"
proof -
  let ?eps = "max_distance_meters / 10"
  let ?pts = "map center change_detections"
  from assms(3) obtain labels where labels: "dbscan ?eps 1 ?pts = Inr labels"
    by (auto simp: dbscan_labels_def split: sum.splits)
  with assms(3) have spec: "dbscan_labels ?eps 1 ?pts (Inr labels)" by simp
  then have len: "length labels = length change_detections"
    by (simp add: dbscan_labels_def)
  from assms(2) have eps: "0 < ?eps" by simp
  let ?cl = "group_by_label labels change_detections"
  from grouped_group_by_label [of labels change_detections]
  have keys: "set (map fst ?cl) = set (map fst (zip labels change_detections))"
    and ne: "list_all (\<lambda>(k, ds). ds \<noteq> []) ?cl"
    and ms: "mset (concat (map snd ?cl)) = mset (map snd (zip labels change_detections))"
    by (simp_all add: grouped_def)
  from len have keys': "set (map fst ?cl) = set labels" unfolding keys by simp
  have "-1 \<notin> set labels"
  proof
    assume "-1 \<in> set labels"
    from labels_not_negative [OF eps spec this] show False by simp
  qed
  with keys' have nonoise: "-1 \<notin> set (map fst ?cl)" by simp
  from cluster_summaries_no_noise [OF assms(4) ne nonoise] obtain groups
    where g: "cluster_summaries set_iter ?cl = Inr groups"
      "list_all (\<lambda>g. group_type g = ''cluster'') groups"
      "map group_detections groups = map snd ?cl"
      "map group_count groups = map (\<lambda>c. length (snd c)) ?cl" by blast
  from len ms have ms': "mset (concat (map snd ?cl)) = mset change_detections" by simp
  have run: "cluster_nearby_changes dbscan set_iter change_detections max_distance_meters
               = Inr groups"
    using assms(1) labels g(1) by (simp add: cluster_nearby_changes_def Let_def)
  have "sum_list (map group_count groups) = length (concat (map snd ?cl))"
    unfolding g(4) by (simp add: length_concat comp_def)
  also have "\<dots> = size (mset (concat (map snd ?cl)))" by simp
  also have "\<dots> = length change_detections" unfolding ms' by simp
  finally have cnt: "sum_list (map group_count groups) = length change_detections" .
  from run g(2) g(3) ms' cnt show ?thesis by simp
qed

theorem min_samples_one_no_noise_witness:
  "three_detections \<noteq> [] \<and> (0::real) < 1000
   \<and> dbscan_labels (1000 / 10) 1 (map center three_detections)
         (one_cluster (1000 / 10) 1 (map center three_detections))
   \<and> iterates_set remdups
   \<and> (\<exists>groups. cluster_nearby_changes one_cluster remdups three_detections 1000 = Inr groups
         \<and> list_all (\<lambda>g. group_type g = ''cluster'') groups
         \<and> mset (concat (map group_detections groups)) = mset three_detections
         \<and> sum_list (map group_count groups) = length three_detections)"
proof -
  have h1: "three_detections \<noteq> []" by (simp add: three_detections_def)
  have h2: "(0::real) < 1000" by simp
  have h3: "dbscan_labels (1000 / 10) 1 (map center three_detections)
              (one_cluster (1000 / 10) 1 (map center three_detections))"
    by (simp add: dbscan_labels_def one_cluster_def three_detections_def)
  have h4: "iterates_set remdups" by (simp add: iterates_set_def)
  from min_samples_one_no_noise [where dbscan = one_cluster, OF h1 h2 h3 h4] h1 h2 h3 h4
  show ?thesis by blast
qed

end
